theory Spec2Isabelle
  imports Complex_Main
begin

section \<open>Generic finite state machine (components/StateMachine.ts)\<close>

text \<open>
  A \<open>State<T>\<close> is a JavaScript object with a name and three optional hooks. The
  machine compares states with \<open>===\<close>, that is by object identity, so every state
  object carries its identity in the field \<open>st_ref\<close>. Hooks receive the owning
  entity and mutate it; here they are functions from the entity to the entity.
  JavaScript numbers are modelled as reals throughout.
\<close>

record 'e State =
  st_ref :: nat
  st_name :: string
  onEnter :: "('e \<Rightarrow> 'e) option"
  onUpdate :: "('e \<Rightarrow> real \<Rightarrow> real \<Rightarrow> 'e) option"
  onExit :: "('e \<Rightarrow> 'e) option"

record 'e StateMachine =
  sm_entity :: 'e
  sm_states :: "string \<rightharpoonup> 'e State"
  sm_currentState :: "'e State option"
  sm_previousState :: "'e State option"
  sm_console :: "string list"

definition new_StateMachine :: "'e \<Rightarrow> 'e StateMachine" where
  "new_StateMachine e =
     \<lparr>sm_entity = e, sm_states = Map.empty, sm_currentState = None,
      sm_previousState = None, sm_console = []\<rparr>"

definition addState :: "'e State \<Rightarrow> 'e StateMachine \<Rightarrow> 'e StateMachine" where
  "addState s m = m\<lparr>sm_states := (sm_states m)(st_name s \<mapsto> s)\<rparr>"

text \<open>\<open>this.currentState === newState\<close>: the current state is the same object.\<close>

definition is_current :: "'e StateMachine \<Rightarrow> 'e State \<Rightarrow> bool" where
  "is_current m s = (case sm_currentState m of None \<Rightarrow> False | Some c \<Rightarrow> st_ref c = st_ref s)"

definition call_hook :: "('e \<Rightarrow> 'e) option \<Rightarrow> 'e \<Rightarrow> 'e" where
  "call_hook h e = (case h of None \<Rightarrow> e | Some f \<Rightarrow> f e)"

definition not_found_msg :: "string \<Rightarrow> string" where
  "not_found_msg nm = ''State '' @ [CHR 0x22] @ nm @ [CHR 0x22] @ '' not found''"

definition setState :: "string \<Rightarrow> 'e StateMachine \<Rightarrow> 'e StateMachine" where
  "setState nm m =
     (case sm_states m nm of
        None \<Rightarrow> m\<lparr>sm_console := sm_console m @ [not_found_msg nm]\<rparr>
      | Some newState \<Rightarrow>
          if is_current m newState then m
          else
            let e1 = (case sm_currentState m of
                        None \<Rightarrow> sm_entity m
                      | Some c \<Rightarrow> call_hook (onExit c) (sm_entity m));
                e2 = call_hook (onEnter newState) e1
            in m\<lparr>sm_entity := e2,
                 sm_previousState := sm_currentState m,
                 sm_currentState := Some newState\<rparr>)"

definition sm_update :: "real \<Rightarrow> real \<Rightarrow> 'e StateMachine \<Rightarrow> 'e StateMachine" where
  "sm_update time delta m =
     (case sm_currentState m of
        None \<Rightarrow> m
      | Some c \<Rightarrow> (case onUpdate c of
                     None \<Rightarrow> m
                   | Some f \<Rightarrow> m\<lparr>sm_entity := f (sm_entity m) time delta\<rparr>))"

definition getCurrentState :: "'e StateMachine \<Rightarrow> string option" where
  "getCurrentState m = map_option st_name (sm_currentState m)"

definition getPreviousState :: "'e StateMachine \<Rightarrow> string option" where
  "getPreviousState m = map_option st_name (sm_previousState m)"

definition isInState :: "string \<Rightarrow> 'e StateMachine \<Rightarrow> bool" where
  "isInState nm m = (getCurrentState m = Some nm)"


section \<open>Engine collaborators\<close>

text \<open>
  The game engine (Phaser) is a third-party library and not part of the repository. Of
  it the model keeps the rectangle type with its overlap test, the standard test of
  axis-aligned boxes that the specification describes (extents intersect on both
  axes), and the clamp of a number into an interval. Timers registered with
  \<open>time.delayedCall\<close> and tween completion callbacks are not run by the model: each
  registration is appended to a log of the registering object, and the body of the
  callback is a function of its own, applied when the engine fires it.
\<close>

record Rectangle =
  rx :: real
  ry :: real
  rwidth :: real
  rheight :: real

definition Overlaps :: "Rectangle \<Rightarrow> Rectangle \<Rightarrow> bool" where
  "Overlaps a b =
     (rx a < rx b + rwidth b \<and> rx a + rwidth a > rx b \<and>
      ry a < ry b + rheight b \<and> ry a + rheight a > ry b)"

definition Clamp :: "real \<Rightarrow> real \<Rightarrow> real \<Rightarrow> real" where
  "Clamp v lo hi = max lo (min hi v)"

definition Distance_Between :: "real \<Rightarrow> real \<Rightarrow> real \<Rightarrow> real \<Rightarrow> real" where
  "Distance_Between x1 y1 x2 y2 = sqrt ((x1 - x2) * (x1 - x2) + (y1 - y2) * (y1 - y2))"

section \<open>Player health (entities/Player.ts)\<close>

text \<open>
  Of the player the model keeps position, velocity, the physics body rectangle and
  the health system. \<open>pl_emitted\<close> logs the events emitted on the scene's event bus
  in order, \<open>pl_delayed\<close> logs the delayed calls registered (delay in milliseconds and
  callback). Tint and alpha changes are left out.
\<close>

datatype GameEvent =
    PlayerDamaged real real
  | PlayerDied
  | EnemyDefeated

datatype PlayerCallback = EndInvincibility | EndRespawnInvincibility

record Player =
  pl_x :: real
  pl_y :: real
  pl_velX :: real
  pl_velY :: real
  pl_body :: Rectangle
  pl_health :: real
  pl_maxHealth :: real
  pl_invincible :: bool
  pl_spawnX :: real
  pl_spawnY :: real
  pl_emitted :: "GameEvent list"
  pl_delayed :: "(real \<times> PlayerCallback) list"

definition respawn :: "Player \<Rightarrow> Player" where
  "respawn p =
     p\<lparr>pl_x := pl_spawnX p, pl_y := pl_spawnY p, pl_velX := 0, pl_velY := 0,
       pl_invincible := True,
       pl_delayed := pl_delayed p @ [(500, EndRespawnInvincibility)]\<rparr>"

definition Player_die :: "Player \<Rightarrow> Player" where
  "Player_die p =
     (let p1 = p\<lparr>pl_emitted := pl_emitted p @ [PlayerDied]\<rparr>;
          p2 = respawn (p1\<lparr>pl_health := pl_maxHealth p1\<rparr>)
      in p2\<lparr>pl_emitted := pl_emitted p2 @ [PlayerDamaged (pl_health p2) (pl_maxHealth p2)]\<rparr>)"

definition Player_takeDamage :: "real \<Rightarrow> real \<Rightarrow> Player \<Rightarrow> Player" where
  "Player_takeDamage amount sourceX p =
     (if pl_invincible p then p
      else
        let knockbackDir = (if pl_x p < sourceX then -1 else 1);
            p1 = p\<lparr>pl_health := pl_health p - amount, pl_invincible := True,
                   pl_velX := 200 * knockbackDir, pl_velY := -150\<rparr>;
            p2 = p1\<lparr>pl_emitted := pl_emitted p1 @ [PlayerDamaged (pl_health p1) (pl_maxHealth p1)]\<rparr>
        in if pl_health p2 \<le> 0 then Player_die p2
           else p2\<lparr>pl_delayed := pl_delayed p2 @ [(1000, EndInvincibility)]\<rparr>)"

definition fallDeath :: "Player \<Rightarrow> Player" where
  "fallDeath p =
     (let p1 = p\<lparr>pl_health := pl_health p - 1\<rparr>;
          p2 = p1\<lparr>pl_emitted := pl_emitted p1 @ [PlayerDamaged (pl_health p1) (pl_maxHealth p1)]\<rparr>
      in if pl_health p2 \<le> 0 then Player_die p2 else respawn p2)"

definition checkDeathPit :: "real \<Rightarrow> Player \<Rightarrow> Player" where
  "checkDeathPit deathY p = (if pl_y p > deathY then fallDeath p else p)"



text \<open>Both delayed callbacks of the player end the invincibility.\<close>

definition Player_fire :: "PlayerCallback \<Rightarrow> Player \<Rightarrow> Player" where
  "Player_fire cb p = p\<lparr>pl_invincible := False\<rparr>"

text \<open>
  The player as the constructor leaves it: five hearts, vulnerable. The body
  rectangle is placed by the physics engine and is a parameter.
\<close>

definition new_Player :: "real \<Rightarrow> real \<Rightarrow> Rectangle \<Rightarrow> Player" where
  "new_Player x y body =
     \<lparr>pl_x = x, pl_y = y, pl_velX = 0, pl_velY = 0,
      pl_body = body,
      pl_health = 5, pl_maxHealth = 5, pl_invincible = False,
      pl_spawnX = x, pl_spawnY = y, pl_emitted = [], pl_delayed = []\<rparr>"




section \<open>Enemies (entities/Enemy.ts, the Flyer and Crawler subclasses)\<close>

text \<open>
  \<open>Enemy\<close> extends the engine's sprite class, from which it inherits the position,
  the body velocity and the general-purpose property \<open>state\<close> of every game object
  (a number, initially 0, that the engine itself never writes). The subclasses are
  record extensions. \<open>en_defeats\<close> counts the calls of \<open>die\<close>.
\<close>

record Enemy =
  en_x :: real
  en_y :: real
  en_velX :: real
  en_velY :: real
  go_state :: nat
  en_health :: real
  en_maxHealth :: real
  en_damage :: real
  en_speed :: real
  en_isHurt :: bool
  en_isAlive :: bool
  en_facingRight :: bool
  en_knockbackVelocity :: real
  en_hurtTimer :: real
  en_hurtDuration :: real
  en_defeats :: nat

definition Enemy_die :: "'a Enemy_scheme \<Rightarrow> 'a Enemy_scheme" where
  "Enemy_die e = e\<lparr>en_isAlive := False, en_defeats := Suc (en_defeats e)\<rparr>"

definition Enemy_takeDamage :: "real \<Rightarrow> real \<Rightarrow> 'a Enemy_scheme \<Rightarrow> 'a Enemy_scheme" where
  "Enemy_takeDamage amount sourceX e =
     (if en_isHurt e \<or> \<not> en_isAlive e then e
      else
        let direction = (if en_x e < sourceX then -1 else 1);
            e1 = e\<lparr>en_health := en_health e - amount, en_isHurt := True,
                   en_hurtTimer := en_hurtDuration e,
                   en_velX := en_knockbackVelocity e * direction, en_velY := -100\<rparr>
        in if en_health e1 \<le> 0 then Enemy_die e1 else e1)"

definition updateHurt :: "real \<Rightarrow> 'a Enemy_scheme \<Rightarrow> 'a Enemy_scheme" where
  "updateHurt delta e =
     (if en_isHurt e then
        (let e1 = e\<lparr>en_hurtTimer := en_hurtTimer e - delta\<rparr>
         in if en_hurtTimer e1 \<le> 0 then e1\<lparr>en_isHurt := False\<rparr> else e1)
      else e)"

definition facePlayer :: "real \<Rightarrow> 'a Enemy_scheme \<Rightarrow> 'a Enemy_scheme" where
  "facePlayer playerX e = e\<lparr>en_facingRight := (playerX > en_x e)\<rparr>"

definition getDamage :: "'a Enemy_scheme \<Rightarrow> real" where
  "getDamage e = en_damage e"

definition isActive :: "'a Enemy_scheme \<Rightarrow> bool" where
  "isActive e = (en_isAlive e \<and> \<not> en_isHurt e)"

subsection \<open>Crawler\<close>

datatype CrawlerState = CR_IDLE | CR_PATROL | CR_CHASE | CR_ATTACK

record Crawler = Enemy +
  cr_currentState :: CrawlerState
  cr_patrolDirection :: real
  cr_patrolTimer :: real
  cr_idleTimer :: real

text \<open>The crawler as its constructor leaves it (config: speed 120, health 2, damage 1).\<close>

definition new_Crawler :: "real \<Rightarrow> real \<Rightarrow> Crawler" where
  "new_Crawler x y =
     \<lparr>en_x = x, en_y = y, en_velX = 0, en_velY = 0, go_state = 0,
      en_health = 2, en_maxHealth = 2, en_damage = 1, en_speed = 120,
      en_isHurt = False, en_isAlive = True, en_facingRight = True,
      en_knockbackVelocity = 300, en_hurtTimer = 0, en_hurtDuration = 200,
      en_defeats = 0,
      cr_currentState = CR_PATROL, cr_patrolDirection = 1, cr_patrolTimer = 2000,
      cr_idleTimer = 0\<rparr>"

subsection \<open>Flyer\<close>

datatype FlyerState = HOVER | TRACK | SWOOP | RETREAT

text \<open>The numeric values of the enum, as TypeScript assigns them.\<close>

fun FlyerState_num :: "FlyerState \<Rightarrow> nat" where
  "FlyerState_num HOVER = 0"
| "FlyerState_num TRACK = 1"
| "FlyerState_num SWOOP = 2"
| "FlyerState_num RETREAT = 3"

record Flyer = Enemy +
  fl_currentState :: FlyerState
  fl_hoverOffset :: real
  fl_hoverBaseY :: real
  fl_swoopTarget :: "(real \<times> real) option"
  fl_retreatTimer :: real
  fl_retreatDuration :: real
  fl_trackTimer :: real
  fl_trackDuration :: real

definition FLYER_SPEED :: real where "FLYER_SPEED = 150"
definition FLYER_HEALTH :: real where "FLYER_HEALTH = 1"
definition FLYER_DAMAGE :: real where "FLYER_DAMAGE = 1"
definition FLYER_HOVER_AMPLITUDE :: real where "FLYER_HOVER_AMPLITUDE = 30"
definition FLYER_HOVER_SPEED :: real where "FLYER_HOVER_SPEED = 2"
definition FLYER_SWOOP_SPEED :: real where "FLYER_SWOOP_SPEED = 350"
definition FLYER_DETECTION_RANGE :: real where "FLYER_DETECTION_RANGE = 400"

definition new_Flyer :: "real \<Rightarrow> real \<Rightarrow> Flyer" where
  "new_Flyer x y =
     \<lparr>en_x = x, en_y = y, en_velX = 0, en_velY = 0, go_state = 0,
      en_health = FLYER_HEALTH, en_maxHealth = FLYER_HEALTH, en_damage = FLYER_DAMAGE,
      en_speed = FLYER_SPEED,
      en_isHurt = False, en_isAlive = True, en_facingRight = True,
      en_knockbackVelocity = 300, en_hurtTimer = 0, en_hurtDuration = 200,
      en_defeats = 0,
      fl_currentState = HOVER, fl_hoverOffset = 0, fl_hoverBaseY = y,
      fl_swoopTarget = None, fl_retreatTimer = 0, fl_retreatDuration = 1500,
      fl_trackTimer = 0, fl_trackDuration = 500\<rparr>"

definition updateHover :: "real \<Rightarrow> real \<Rightarrow> Flyer \<Rightarrow> Flyer" where
  "updateHover delta distanceToPlayer f =
     (let f1 = f\<lparr>fl_hoverOffset := fl_hoverOffset f + delta * FLYER_HOVER_SPEED * 0.001\<rparr>;
          targetY = fl_hoverBaseY f1 + sin (fl_hoverOffset f1) * FLYER_HOVER_AMPLITUDE;
          f2 = f1\<lparr>en_velY := (targetY - en_y f1) * 3, en_velX := 0\<rparr>
      in if distanceToPlayer < FLYER_DETECTION_RANGE
         then f2\<lparr>fl_currentState := TRACK, fl_trackTimer := fl_trackDuration f2\<rparr>
         else f2)"

definition startSwoop :: "Player \<Rightarrow> Flyer \<Rightarrow> Flyer" where
  "startSwoop player f =
     f\<lparr>fl_currentState := SWOOP, fl_swoopTarget := Some (pl_x player, pl_y player)\<rparr>"

definition updateTrack :: "real \<Rightarrow> Player \<Rightarrow> Flyer \<Rightarrow> Flyer" where
  "updateTrack delta player f =
     (let f1 = f\<lparr>fl_trackTimer := fl_trackTimer f - delta\<rparr>;
          targetX = pl_x player;
          targetY = pl_y player - 150;
          dx = targetX - en_x f1;
          dy = targetY - en_y f1;
          distance = sqrt (dx * dx + dy * dy);
          f2 = (if distance > 10
                then f1\<lparr>en_velX := (dx / distance) * en_speed f1,
                        en_velY := (dy / distance) * en_speed f1\<rparr>
                else f1)
      in if fl_trackTimer f2 \<le> 0 \<or> distance < 50 then startSwoop player f2 else f2)"

definition updateSwoop :: "Flyer \<Rightarrow> Flyer" where
  "updateSwoop f =
     (case fl_swoopTarget f of
        None \<Rightarrow> f\<lparr>fl_currentState := RETREAT, fl_retreatTimer := fl_retreatDuration f\<rparr>
      | Some (tx, ty) \<Rightarrow>
          let dx = tx - en_x f;
              dy = ty - en_y f;
              distance = sqrt (dx * dx + dy * dy)
          in if distance > 20 then
               (let f1 = f\<lparr>en_velX := (dx / distance) * FLYER_SWOOP_SPEED,
                            en_velY := (dy / distance) * FLYER_SWOOP_SPEED\<rparr>
                in if en_y f1 > ty + 50
                   then f1\<lparr>fl_currentState := RETREAT,
                           fl_retreatTimer := fl_retreatDuration f1,
                           fl_swoopTarget := None\<rparr>
                   else f1)
             else f\<lparr>fl_currentState := RETREAT, fl_retreatTimer := fl_retreatDuration f,
                    fl_swoopTarget := None\<rparr>)"

definition updateRetreat :: "real \<Rightarrow> Flyer \<Rightarrow> Flyer" where
  "updateRetreat delta f =
     (let f1 = f\<lparr>fl_retreatTimer := fl_retreatTimer f - delta\<rparr>;
          targetY = fl_hoverBaseY f1;
          dy = targetY - en_y f1;
          f2 = f1\<lparr>en_velY := sgn dy * en_speed f1, en_velX := 0\<rparr>
      in if fl_retreatTimer f2 \<le> 0 \<or> \<bar>dy\<bar> < 20
         then f2\<lparr>fl_currentState := HOVER, fl_hoverOffset := 0\<rparr>
         else f2)"

text \<open>
  The bounds of the two sprites come from the engine and are parameters. The test
  and the assignment after the hit use the inherited property \<open>state\<close>.
\<close>

definition Flyer_checkPlayerCollision ::
  "Rectangle \<Rightarrow> Rectangle \<Rightarrow> Flyer \<times> Player \<Rightarrow> Flyer \<times> Player" where
  "Flyer_checkPlayerCollision bounds playerBounds fp =
     (let f = fst fp; player = snd fp
      in if Overlaps bounds playerBounds then
           (let player1 = Player_takeDamage (en_damage f) (en_x f) player
            in if go_state f = FlyerState_num SWOOP
               then (f\<lparr>go_state := FlyerState_num RETREAT,
                        fl_retreatTimer := fl_retreatDuration f\<rparr>, player1)
               else (f, player1))
         else (f, player))"

definition Flyer_update ::
  "real \<Rightarrow> Rectangle \<Rightarrow> Rectangle \<Rightarrow> Flyer \<times> Player \<Rightarrow> Flyer \<times> Player" where
  "Flyer_update delta bounds playerBounds fp =
     (let f = fst fp; player = snd fp
      in if \<not> en_isAlive f then (f, player)
         else
           let f1 = updateHurt delta f
           in if en_isHurt f1 then (f1, player)
              else
                let distanceToPlayer =
                      Distance_Between (en_x f1) (en_y f1) (pl_x player) (pl_y player);
                    f2 = (case fl_currentState f1 of
                            HOVER \<Rightarrow> updateHover delta distanceToPlayer f1
                          | TRACK \<Rightarrow> updateTrack delta player f1
                          | SWOOP \<Rightarrow> updateSwoop f1
                          | RETREAT \<Rightarrow> updateRetreat delta f1);
                    f3 = facePlayer (pl_x player) f2
                in Flyer_checkPlayerCollision bounds playerBounds (f3, player))"

definition Flyer_takeDamage :: "real \<Rightarrow> real \<Rightarrow> Flyer \<Rightarrow> Flyer" where
  "Flyer_takeDamage amount sourceX f =
     (let f1 = Enemy_takeDamage amount sourceX f
      in if en_isAlive f1
         then f1\<lparr>go_state := FlyerState_num RETREAT,
                 fl_retreatTimer := fl_retreatDuration f1\<rparr>
         else f1)"


section \<open>Patrol enemies of the enemy manager (systems/EnemyManager.ts)\<close>

text \<open>
  The enemy manager has a base class of its own for the crawlers and flyers it
  spawns. The model keeps its damage contract.
\<close>

record BaseEnemy =
  be_x :: real
  be_velX :: real
  be_velY :: real
  be_health :: real
  be_damage :: real
  be_isAlive :: bool
  be_isHurt :: bool
  be_hurtTimer :: real
  be_active :: bool
  be_emitted :: "GameEvent list"

text \<open>A crawler of the enemy manager as spawned (health 2, damage 1).\<close>

definition new_BaseEnemy :: "real \<Rightarrow> BaseEnemy" where
  "new_BaseEnemy x =
     \<lparr>be_x = x, be_velX = 0, be_velY = 0, be_health = 2, be_damage = 1,
      be_isAlive = True, be_isHurt = False, be_hurtTimer = 0, be_active = True,
      be_emitted = []\<rparr>"

definition BaseEnemy_die :: "BaseEnemy \<Rightarrow> BaseEnemy" where
  "BaseEnemy_die e =
     e\<lparr>be_isAlive := False, be_emitted := be_emitted e @ [EnemyDefeated],
       be_active := False\<rparr>"

definition BaseEnemy_takeDamage :: "real \<Rightarrow> real \<Rightarrow> BaseEnemy \<Rightarrow> BaseEnemy" where
  "BaseEnemy_takeDamage amount sourceX e =
     (if be_isHurt e \<or> \<not> be_isAlive e then e
      else
        let dir = (if be_x e < sourceX then -1 else 1);
            e1 = e\<lparr>be_health := be_health e - amount, be_isHurt := True,
                   be_hurtTimer := 300, be_velX := 150 * dir, be_velY := -50\<rparr>
        in if be_health e1 \<le> 0 then BaseEnemy_die e1 else e1)"

section \<open>The boss entity class (entities/Boss.ts)\<close>

text \<open>
  The class \<open>Boss\<close> is a boss implemented as a sprite with its own damage contract
  and phase check. \<open>bo_transitions\<close> logs the calls of \<open>transitionToPhase\<close>,
  \<open>bo_delayed\<close> the delayed calls registered.
\<close>

datatype BossPhase = PHASE_1 | PHASE_2 | PHASE_3

datatype BossEntityState = BE_IDLE | BE_WALK | BE_ATTACK | BE_DASH | BE_STUNNED | BE_TRANSITION

datatype BossCallback = EndTransition

definition BOSS_HEALTH :: real where "BOSS_HEALTH = 15"
definition BOSS_DAMAGE :: real where "BOSS_DAMAGE = 2"
definition BOSS_PHASE1_SPEED :: real where "BOSS_PHASE1_SPEED = 180"
definition BOSS_PHASE1_ATTACK_COOLDOWN :: real where "BOSS_PHASE1_ATTACK_COOLDOWN = 2000"
definition BOSS_PHASE2_SPEED :: real where "BOSS_PHASE2_SPEED = 220"
definition BOSS_PHASE2_ATTACK_COOLDOWN :: real where "BOSS_PHASE2_ATTACK_COOLDOWN = 1500"
definition BOSS_PHASE3_SPEED :: real where "BOSS_PHASE3_SPEED = 260"
definition BOSS_PHASE3_ATTACK_COOLDOWN :: real where "BOSS_PHASE3_ATTACK_COOLDOWN = 1000"

record Boss =
  bo_x :: real
  bo_velX :: real
  bo_velY :: real
  bo_health :: real
  bo_maxHealth :: real
  bo_damage :: real
  bo_phase :: BossPhase
  bo_currentState :: BossEntityState
  bo_isAlive :: bool
  bo_isHurt :: bool
  bo_hurtTimer :: real
  bo_hurtDuration :: real
  bo_actionTimer :: real
  bo_attackCooldown :: real
  bo_attackTimer :: real
  bo_currentSpeed :: real
  bo_transitions :: "BossPhase list"
  bo_delayed :: "(real \<times> BossCallback) list"

definition new_Boss :: "real \<Rightarrow> Boss" where
  "new_Boss x =
     \<lparr>bo_x = x, bo_velX = 0, bo_velY = 0, bo_health = BOSS_HEALTH,
      bo_maxHealth = BOSS_HEALTH, bo_damage = BOSS_DAMAGE, bo_phase = PHASE_1,
      bo_currentState = BE_IDLE, bo_isAlive = True, bo_isHurt = False,
      bo_hurtTimer = 0, bo_hurtDuration = 300, bo_actionTimer = 0,
      bo_attackCooldown = BOSS_PHASE1_ATTACK_COOLDOWN,
      bo_attackTimer = BOSS_PHASE1_ATTACK_COOLDOWN,
      bo_currentSpeed = BOSS_PHASE1_SPEED, bo_transitions = [], bo_delayed = []\<rparr>"

definition Boss_transitionToPhase :: "BossPhase \<Rightarrow> Boss \<Rightarrow> Boss" where
  "Boss_transitionToPhase newPhase b =
     (let b1 = b\<lparr>bo_phase := newPhase, bo_currentState := BE_TRANSITION,
                  bo_transitions := bo_transitions b @ [newPhase]\<rparr>;
          b2 = (case newPhase of
                  PHASE_1 \<Rightarrow> b1
                | PHASE_2 \<Rightarrow> b1\<lparr>bo_currentSpeed := BOSS_PHASE2_SPEED,
                                 bo_attackCooldown := BOSS_PHASE2_ATTACK_COOLDOWN\<rparr>
                | PHASE_3 \<Rightarrow> b1\<lparr>bo_currentSpeed := BOSS_PHASE3_SPEED,
                                 bo_attackCooldown := BOSS_PHASE3_ATTACK_COOLDOWN\<rparr>)
      in b2\<lparr>bo_delayed := bo_delayed b2 @ [(500, EndTransition)]\<rparr>)"

definition checkPhaseTransition :: "Boss \<Rightarrow> Boss" where
  "checkPhaseTransition b =
     (let healthPercent = bo_health b / bo_maxHealth b
      in if healthPercent \<le> 0.66 \<and> bo_phase b = PHASE_1
         then Boss_transitionToPhase PHASE_2 b
         else if healthPercent \<le> 0.33 \<and> bo_phase b = PHASE_2
         then Boss_transitionToPhase PHASE_3 b
         else b)"

definition Boss_die :: "Boss \<Rightarrow> Boss" where
  "Boss_die b = b\<lparr>bo_isAlive := False, bo_velX := 0, bo_velY := 0\<rparr>"

definition Boss_takeDamage :: "real \<Rightarrow> real \<Rightarrow> Boss \<Rightarrow> Boss" where
  "Boss_takeDamage amount sourceX b =
     (if bo_isHurt b \<or> \<not> bo_isAlive b then b
      else
        let direction = (if bo_x b < sourceX then -1 else 1);
            b1 = b\<lparr>bo_health := bo_health b - amount, bo_isHurt := True,
                   bo_hurtTimer := bo_hurtDuration b, bo_velX := 100 * direction\<rparr>;
            b2 = checkPhaseTransition b1
        in if bo_health b2 \<le> 0 then Boss_die b2 else b2)"

definition Boss_updateHurt :: "real \<Rightarrow> Boss \<Rightarrow> Boss" where
  "Boss_updateHurt delta b =
     (if bo_isHurt b then
        (let b1 = b\<lparr>bo_hurtTimer := bo_hurtTimer b - delta\<rparr>
         in if bo_hurtTimer b1 \<le> 0 then b1\<lparr>bo_isHurt := False\<rparr> else b1)
      else b)"

definition Boss_fire :: "BossCallback \<Rightarrow> Boss \<Rightarrow> Boss" where
  "Boss_fire cb b = b\<lparr>bo_currentState := BE_IDLE, bo_actionTimer := 500\<rparr>"

text \<open>
  \<open>update\<close> returns at once for a boss that is not alive (or not \<open>active\<close>, the
  engine's flag that is cleared when the sprite is destroyed, which only the end of
  the death animation does). Otherwise the hurt timer
  runs, and unless the boss is hurt or in transition the handler of the current
  behaviour state and the collision check follow. These write the behaviour state,
  the action timer, the attack timer, the body velocity and the attack hitbox, and
  may damage the player; none of them writes the health, the phase, the hurt flag
  or the death flag. The model does not follow the behaviour: a frame comes with
  the values \<open>w\<close> that the handlers leave in the fields they write.
\<close>

record BossWrites =
  bw_currentState :: BossEntityState
  bw_actionTimer :: real
  bw_attackTimer :: real
  bw_velX :: real
  bw_velY :: real

definition Boss_update :: "real \<Rightarrow> BossWrites \<Rightarrow> Boss \<Rightarrow> Boss" where
  "Boss_update delta w b =
     (if \<not> bo_isAlive b then b
      else
        let b1 = Boss_updateHurt delta b
        in if bo_isHurt b1 \<or> bo_currentState b1 = BE_TRANSITION then b1
           else b1\<lparr>bo_currentState := bw_currentState w, bo_actionTimer := bw_actionTimer w,
                   bo_attackTimer := bw_attackTimer w, bo_velX := bw_velX w,
                   bo_velY := bw_velY w\<rparr>)"



text \<open>
  What can happen to a boss of this class: a \<open>takeDamage\<close> call, a frame, a delayed
  callback firing. \<open>bossTrace\<close> lists the boss after each event of a run, the first
  one included.
\<close>

datatype BossEvent =
    BossHit real real
  | BossFrame real BossWrites
  | BossTimer BossCallback

fun bossStep :: "BossEvent \<Rightarrow> Boss \<Rightarrow> Boss" where
  "bossStep (BossHit amount sourceX) b = Boss_takeDamage amount sourceX b"
| "bossStep (BossFrame delta w) b = Boss_update delta w b"
| "bossStep (BossTimer cb) b = Boss_fire cb b"

fun bossTrace :: "BossEvent list \<Rightarrow> Boss \<Rightarrow> Boss list" where
  "bossTrace [] b = [b]"
| "bossTrace (e # es) b = b # bossTrace es (bossStep e b)"


section \<open>The boss encounter (scenes/BossScene.ts)\<close>

text \<open>
  The scene keeps the boss in its own fields. Drawing, camera and text effects are
  left out. \<open>sc_delayed\<close> holds the pending delayed calls and tween completions,
  each with its delay; \<open>sc_phaseLog\<close> logs the calls of \<open>transitionToPhase\<close>,
  \<open>sc_deaths\<close> counts the calls of \<open>startBossDeath\<close> and \<open>sc_victories\<close> those of
  \<open>showVictory\<close>. A void orb is an engine graphics object with extra properties; its
  identity (the tween callback refers to the object) is \<open>orb_id\<close>.
\<close>

datatype BossState =
  DORMANT | AWAKENING | IDLE | WALKING | SLASH | CHARGE | SUMMON | SLAM | STUNNED | DYING | DEAD

record VoidOrb =
  orb_id :: nat
  orb_x :: real
  orb_y :: real
  orb_targetX :: real
  orb_targetY :: real
  orb_speed :: real
  orb_lifetime :: real
  orb_chasing :: bool
  orb_active :: bool

datatype SceneCallback =
    BeginFight
  | SlashDamage
  | ChargeLaunch
  | SpawnOrb
  | OrbRisen nat real
  | SlamLanded
  | SlamWaveDamage
  | Victory

record BossScene =
  player :: Player
  bossX :: real
  bossY :: real
  bossHealth :: real
  bossMaxHealth :: real
  bossState :: BossState
  bossPhase :: int
  bossFacing :: real
  bossVelocityX :: real
  bossVelocityY :: real
  bossHitbox :: Rectangle
  stateTimer :: real
  attackCooldown :: real
  invincibleTimer :: real
  animTimer :: real
  screenShakeIntensity :: real
  voidOrbs :: "VoidOrb list"
  sc_triggerZone :: bool
  sc_delayed :: "(real \<times> SceneCallback) list"
  sc_phaseLog :: "int list"
  sc_deaths :: nat
  sc_victories :: nat
  sc_nextOrb :: nat

text \<open>The scene after \<open>create\<close>: player at (150, 520), the boss dormant at (1100, 520).\<close>

definition new_BossScene :: "Rectangle \<Rightarrow> BossScene" where
  "new_BossScene playerBody =
     \<lparr>player = new_Player 150 520 playerBody,
      bossX = 1100, bossY = 520, bossHealth = 20, bossMaxHealth = 20,
      bossState = DORMANT, bossPhase = 1, bossFacing = -1,
      bossVelocityX = 0, bossVelocityY = 0,
      bossHitbox = \<lparr>rx = -30, ry = -50, rwidth = 60, rheight = 100\<rparr>,
      stateTimer = 0, attackCooldown = 0, invincibleTimer = 0, animTimer = 0,
      screenShakeIntensity = 0, voidOrbs = [], sc_triggerZone = True,
      sc_delayed = [], sc_phaseLog = [], sc_deaths = 0, sc_victories = 0,
      sc_nextOrb = 0\<rparr>"

definition delayedCall :: "real \<Rightarrow> SceneCallback \<Rightarrow> BossScene \<Rightarrow> BossScene" where
  "delayedCall delay cb s = s\<lparr>sc_delayed := sc_delayed s @ [(delay, cb)]\<rparr>"

definition playerRect :: "BossScene \<Rightarrow> Rectangle" where
  "playerRect s = pl_body (player s)"

definition hurtPlayer :: "real \<Rightarrow> real \<Rightarrow> BossScene \<Rightarrow> BossScene" where
  "hurtPlayer amount sourceX s = s\<lparr>player := Player_takeDamage amount sourceX (player s)\<rparr>"

subsection \<open>Start of the fight\<close>

definition startBossFight :: "BossScene \<Rightarrow> BossScene" where
  "startBossFight s =
     delayedCall 2500 BeginFight
       (s\<lparr>bossState := AWAKENING, stateTimer := 3000, screenShakeIntensity := 5\<rparr>)"

definition onTriggerOverlap :: "BossScene \<Rightarrow> BossScene" where
  "onTriggerOverlap s =
     (if sc_triggerZone s \<and> bossState s = DORMANT
      then startBossFight (s\<lparr>sc_triggerZone := False\<rparr>)
      else s)"

subsection \<open>Attacks\<close>

definition startSlash :: "BossScene \<Rightarrow> BossScene" where
  "startSlash s =
     (let s1 = s\<lparr>bossState := SLASH, stateTimer := 400, bossVelocityX := 0\<rparr>;
          s2 = delayedCall 150 SlashDamage s1
      in s2\<lparr>attackCooldown := 800 - (real_of_int (bossPhase s2) - 1) * 150\<rparr>)"

definition startCharge :: "BossScene \<Rightarrow> BossScene" where
  "startCharge s =
     (let s1 = s\<lparr>bossState := CHARGE, stateTimer := 600\<rparr>;
          s2 = delayedCall 200 ChargeLaunch s1
      in s2\<lparr>attackCooldown := 1500\<rparr>)"

definition startSummon :: "BossScene \<Rightarrow> BossScene" where
  "startSummon s =
     (let s1 = s\<lparr>bossState := SUMMON, stateTimer := 1500, bossVelocityX := 0\<rparr>;
          orbCount = nat (bossPhase s1);
          s2 = s1\<lparr>sc_delayed := sc_delayed s1 @
                  map (\<lambda>i. (300 + real i * 200, SpawnOrb)) [0..<orbCount]\<rparr>
      in s2\<lparr>attackCooldown := 2000\<rparr>)"

definition startSlam :: "BossScene \<Rightarrow> BossScene" where
  "startSlam s =
     (let s1 = s\<lparr>bossState := SLAM, stateTimer := 1000\<rparr>;
          s2 = delayedCall 600 SlamLanded s1
      in s2\<lparr>attackCooldown := 2500\<rparr>)"

definition spawnVoidOrb :: "BossScene \<Rightarrow> BossScene" where
  "spawnVoidOrb s =
     (let startX = bossX s;
          startY = bossY s - 30;
          orb = \<lparr>orb_id = sc_nextOrb s, orb_x = startX, orb_y = startY,
                 orb_targetX = pl_x (player s), orb_targetY = pl_y (player s),
                 orb_speed = 200, orb_lifetime = 3000, orb_chasing = False,
                 orb_active = True\<rparr>;
          s1 = s\<lparr>voidOrbs := voidOrbs s @ [orb], sc_nextOrb := Suc (sc_nextOrb s)\<rparr>
      in delayedCall 500 (OrbRisen (orb_id orb) (startY - 50)) s1)"

definition createSlamWave :: "BossScene \<Rightarrow> BossScene" where
  "createSlamWave s = delayedCall 100 SlamWaveDamage (delayedCall 100 SlamWaveDamage s)"

subsection \<open>The boss's decisions, state by state\<close>

definition chooseNextAction :: "real \<Rightarrow> BossScene \<Rightarrow> BossScene" where
  "chooseNextAction roll s =
     (let distance = \<bar>pl_x (player s) - bossX s\<bar>
      in if distance < 120 then startSlash s
         else if distance > 400 \<and> bossPhase s \<ge> 2 \<and> roll > 0.5 then startCharge s
         else if bossPhase s \<ge> 2 \<and> roll > 0.7 then startSummon s
         else if bossPhase s \<ge> 3 \<and> roll > 0.6 then startSlam s
         else s\<lparr>bossState := WALKING, stateTimer := 2000\<rparr>)"

definition updateIdle :: "real \<Rightarrow> BossScene \<Rightarrow> BossScene" where
  "updateIdle roll s =
     (let s1 = s\<lparr>bossVelocityX := 0, bossVelocityY := 0\<rparr>
      in if stateTimer s1 \<le> 0 \<and> attackCooldown s1 \<le> 0 then chooseNextAction roll s1
         else s1)"

definition updateWalking :: "BossScene \<Rightarrow> BossScene" where
  "updateWalking s =
     (let speed = 120 + (real_of_int (bossPhase s) - 1) * 40;
          direction = (if pl_x (player s) < bossX s then -1 else 1);
          s1 = s\<lparr>bossVelocityX := speed * direction\<rparr>;
          distance = \<bar>pl_x (player s1) - bossX s1\<bar>
      in if distance < 100 \<and> attackCooldown s1 \<le> 0 then startSlash s1
         else if stateTimer s1 \<le> 0 then s1\<lparr>bossState := IDLE, stateTimer := 300\<rparr>
         else s1)"

definition updateSlash :: "BossScene \<Rightarrow> BossScene" where
  "updateSlash s =
     (if stateTimer s \<le> 0 then s\<lparr>bossState := IDLE, stateTimer := 300\<rparr> else s)"

definition updateCharge :: "BossScene \<Rightarrow> BossScene" where
  "updateCharge s =
     (if Overlaps (bossHitbox s) (playerRect s) then
        (hurtPlayer 2 (bossX s) s)
          \<lparr>screenShakeIntensity := 10, bossVelocityX := 0, bossState := IDLE,
           stateTimer := 500\<rparr>
      else
        let s1 = (if bossX s \<le> 100 \<or> bossX s \<ge> 1300
                  then s\<lparr>bossVelocityX := 0, screenShakeIntensity := 5,
                         bossState := STUNNED, stateTimer := 1000\<rparr>
                  else s)
        in if stateTimer s1 \<le> 0
           then s1\<lparr>bossVelocityX := 0, bossState := IDLE, stateTimer := 300\<rparr>
           else s1)"

definition updateSummon :: "BossScene \<Rightarrow> BossScene" where
  "updateSummon s =
     (if stateTimer s \<le> 0 then s\<lparr>bossState := IDLE, stateTimer := 500\<rparr> else s)"

definition updateSlam :: "BossScene \<Rightarrow> BossScene" where
  "updateSlam s =
     (if stateTimer s \<le> 0 then s\<lparr>bossState := IDLE, stateTimer := 500\<rparr> else s)"

definition updateStunned :: "BossScene \<Rightarrow> BossScene" where
  "updateStunned s =
     (if stateTimer s \<le> 0 then s\<lparr>bossState := IDLE, stateTimer := 300\<rparr> else s)"

definition checkBossPlayerCollision :: "BossScene \<Rightarrow> BossScene" where
  "checkBossPlayerCollision s =
     (if bossState s = DORMANT \<or> bossState s = DEAD then s
      else if Overlaps (bossHitbox s) (playerRect s) then
        (if bossState s \<noteq> STUNNED then hurtPlayer 1 (bossX s) s else s)
      else s)"

text \<open>
  \<open>updateBoss\<close> is a straight line of four steps after its early returns: the state
  timer and the facing, the switch over the state, the velocity applied to the
  position (kept in bounds, with the hitbox moved along), and the contact check.
  The second and third step are named here.
\<close>

definition bossStateMachine :: "real \<Rightarrow> BossScene \<Rightarrow> BossScene" where
  "bossStateMachine roll s =
     (case bossState s of
        IDLE \<Rightarrow> updateIdle roll s
      | WALKING \<Rightarrow> updateWalking s
      | SLASH \<Rightarrow> updateSlash s
      | CHARGE \<Rightarrow> updateCharge s
      | SUMMON \<Rightarrow> updateSummon s
      | SLAM \<Rightarrow> updateSlam s
      | STUNNED \<Rightarrow> updateStunned s
      | _ \<Rightarrow> s)"

definition applyVelocity :: "real \<Rightarrow> BossScene \<Rightarrow> BossScene" where
  "applyVelocity delta s =
     (let s4 = s\<lparr>bossX := bossX s + bossVelocityX s * (delta / 1000),
                  bossY := bossY s + bossVelocityY s * (delta / 1000)\<rparr>;
          s5 = s4\<lparr>bossX := Clamp (bossX s4) 80 1320, bossY := Clamp (bossY s4) 100 580\<rparr>
      in s5\<lparr>bossHitbox := (bossHitbox s5)\<lparr>rx := bossX s5 - 30, ry := bossY s5 - 50\<rparr>\<rparr>)"


definition updateBoss :: "real \<Rightarrow> real \<Rightarrow> BossScene \<Rightarrow> BossScene" where
  "updateBoss delta roll s =
     (if bossState s = DORMANT \<or> bossState s = AWAKENING then s
      else if bossState s = DEAD then s
      else
        let s1 = s\<lparr>stateTimer := stateTimer s - delta\<rparr>;
            s2 = s1\<lparr>bossFacing := (if pl_x (player s1) < bossX s1 then -1 else 1)\<rparr>
        in checkBossPlayerCollision (applyVelocity delta (bossStateMachine roll s2)))"

subsection \<open>Void orbs\<close>

text \<open>
  \<open>updateVoidOrbs\<close> filters the orb list with a callback that also moves the orb and
  may hurt the player. \<open>orbCallback\<close> is that callback: it returns whether the orb
  stays in the list, the orb and the player after the call. \<open>filterOrbs\<close> runs it
  over the list from the left, as \<open>Array.filter\<close> does.
\<close>

definition destroy :: "VoidOrb \<Rightarrow> VoidOrb" where
  "destroy orb = orb\<lparr>orb_active := False\<rparr>"

definition orbCallback :: "real \<Rightarrow> Player \<Rightarrow> VoidOrb \<Rightarrow> bool \<times> VoidOrb \<times> Player" where
  "orbCallback delta p orb =
     (if \<not> orb_active orb then (False, orb, p)
      else
        let orb1 = orb\<lparr>orb_lifetime := orb_lifetime orb - delta\<rparr>
        in if orb_lifetime orb1 \<le> 0 then (False, destroy orb1, p)
           else if orb_chasing orb1 then
             (let dx = pl_x p - orb_x orb1;
                  dy = pl_y p - orb_y orb1;
                  dist = sqrt (dx * dx + dy * dy);
                  orb2 = (if dist > 0
                          then (let speed = orb_speed orb1 * (delta / 1000)
                                in orb1\<lparr>orb_x := orb_x orb1 + (dx / dist) * speed,
                                        orb_y := orb_y orb1 + (dy / dist) * speed\<rparr>)
                          else orb1)
              in if dist < 30
                 then (False, destroy orb2, Player_takeDamage 1 (orb_x orb2) p)
                 else (True, orb2, p))
           else (True, orb1, p))"

fun filterOrbs :: "real \<Rightarrow> VoidOrb list \<Rightarrow> Player \<Rightarrow> VoidOrb list \<times> Player" where
  "filterOrbs delta [] p = ([], p)"
| "filterOrbs delta (orb # orbs) p =
     (case orbCallback delta p orb of
        (keep, orb1, p1) \<Rightarrow>
          (case filterOrbs delta orbs p1 of
             (rest, p2) \<Rightarrow> ((if keep then orb1 # rest else rest), p2)))"

definition updateVoidOrbs :: "real \<Rightarrow> BossScene \<Rightarrow> BossScene" where
  "updateVoidOrbs delta s =
     (case filterOrbs delta (voidOrbs s) (player s) of
        (orbs, p) \<Rightarrow> s\<lparr>voidOrbs := orbs, player := p\<rparr>)"

subsection \<open>Combat\<close>

definition transitionToPhase :: "int \<Rightarrow> BossScene \<Rightarrow> BossScene" where
  "transitionToPhase phase s =
     s\<lparr>bossPhase := phase, bossState := STUNNED, stateTimer := 2000,
       screenShakeIntensity := 10, sc_phaseLog := sc_phaseLog s @ [phase]\<rparr>"

definition startBossDeath :: "BossScene \<Rightarrow> BossScene" where
  "startBossDeath s =
     delayedCall 2500 Victory
       (s\<lparr>bossState := DYING, voidOrbs := [], screenShakeIntensity := 20,
          sc_deaths := Suc (sc_deaths s)\<rparr>)"

definition bossTakeDamage :: "real \<Rightarrow> BossScene \<Rightarrow> BossScene" where
  "bossTakeDamage amount s =
     (let s1 = s\<lparr>bossHealth := bossHealth s - amount, invincibleTimer := 300,
                  screenShakeIntensity := 3\<rparr>;
          healthPercent = bossHealth s1 / bossMaxHealth s1;
          s2 = (if healthPercent \<le> 0.33 \<and> bossPhase s1 < 3 then transitionToPhase 3 s1
                else if healthPercent \<le> 0.66 \<and> bossPhase s1 < 2 then transitionToPhase 2 s1
                else s1)
      in if bossHealth s2 \<le> 0 then startBossDeath s2 else s2)"

text \<open>The listener that \<open>setupCombat\<close> registers for the event \<open>player-attack\<close>.\<close>

definition onPlayerAttack :: "Rectangle \<Rightarrow> BossScene \<Rightarrow> BossScene" where
  "onPlayerAttack hitbox s =
     (if bossState s = DORMANT \<or> bossState s = AWAKENING \<or> bossState s = DEAD \<or>
         invincibleTimer s > 0
      then s
      else if Overlaps hitbox (bossHitbox s) then bossTakeDamage 1 s
      else s)"

subsection \<open>Delayed callbacks\<close>

text \<open>
  The tween that \<open>spawnVoidOrb\<close> starts lifts the orb to \<open>startY - 50\<close> within 500 ms
  and then arms it. Its completion is the pending entry \<open>OrbRisen i y\<close>, with the orb
  and the height the tween ends at; the heights in between are not modelled (an orb
  that is not yet chasing is not otherwise moved, and its position is not read).
\<close>

definition riseOrb :: "nat \<Rightarrow> real \<Rightarrow> VoidOrb \<Rightarrow> VoidOrb" where
  "riseOrb i y orb =
     (if orb_id orb = i then orb\<lparr>orb_y := y, orb_chasing := True\<rparr> else orb)"

fun callback :: "SceneCallback \<Rightarrow> BossScene \<Rightarrow> BossScene" where
  "callback BeginFight s = s\<lparr>bossState := IDLE, stateTimer := 500\<rparr>"
| "callback SlashDamage s =
     (if bossState s \<noteq> SLASH then s
      else
        let slashHitbox = \<lparr>rx = bossX s + bossFacing s * 30, ry = bossY s - 40,
                            rwidth = 80, rheight = 80\<rparr>
        in if Overlaps slashHitbox (playerRect s)
           then (hurtPlayer 2 (bossX s) s)\<lparr>screenShakeIntensity := 8\<rparr>
           else s)"
| "callback ChargeLaunch s =
     (if bossState s \<noteq> CHARGE then s
      else
        let chargeDir = (if pl_x (player s) < bossX s then -1 else 1)
        in s\<lparr>bossVelocityX := 600 * chargeDir\<rparr>)"
| "callback SpawnOrb s = spawnVoidOrb s"
| "callback (OrbRisen i y) s = s\<lparr>voidOrbs := map (riseOrb i y) (voidOrbs s)\<rparr>"
| "callback SlamLanded s = createSlamWave (s\<lparr>bossY := 580, screenShakeIntensity := 15\<rparr>)"
| "callback SlamWaveDamage s =
     (if ry (playerRect s) > 550 \<and> \<bar>pl_x (player s) - bossX s\<bar> < 350
      then hurtPlayer 2 (bossX s) s
      else s)"
| "callback Victory s = s\<lparr>bossState := DEAD, sc_victories := Suc (sc_victories s)\<rparr>"

text \<open>
  The engine fires a pending entry: it leaves the queue and its callback runs. When
  it fires is the engine's business, so any pending entry may fire at any time.
\<close>

definition fire :: "nat \<Rightarrow> BossScene \<Rightarrow> BossScene" where
  "fire i s =
     (if i < length (sc_delayed s)
      then callback (snd (sc_delayed s ! i))
             (s\<lparr>sc_delayed := take i (sc_delayed s) @ drop (Suc i) (sc_delayed s)\<rparr>)
      else s)"

subsection \<open>One frame of the scene\<close>

text \<open>
  \<open>Player.update\<close> reads the keyboard and the physics body; its outcome, the
  player's position and body rectangle in this frame, is an input of the frame, as
  are the frame's \<open>delta\<close> and the value \<open>Math.random()\<close> returns if the boss
  chooses an action.
\<close>

record FrameInput =
  fr_delta :: real
  fr_roll :: real
  fr_playerX :: real
  fr_playerY :: real
  fr_playerBody :: Rectangle

definition movePlayer :: "FrameInput \<Rightarrow> Player \<Rightarrow> Player" where
  "movePlayer fr p = p\<lparr>pl_x := fr_playerX fr, pl_y := fr_playerY fr, pl_body := fr_playerBody fr\<rparr>"

definition GAME_HEIGHT :: real where
  "GAME_HEIGHT = 720"

text \<open>
  \<open>update\<close> runs the player (here: the frame's input and the pit check), the boss,
  the timers, the decay of the screen shake, and the orbs, in this order.
\<close>

definition updateTimers :: "real \<Rightarrow> BossScene \<Rightarrow> BossScene" where
  "updateTimers delta s =
     (let s3 = (if attackCooldown s > 0
                then s\<lparr>attackCooldown := attackCooldown s - delta\<rparr> else s);
          s4 = (if invincibleTimer s3 > 0
                then s3\<lparr>invincibleTimer := invincibleTimer s3 - delta\<rparr> else s3)
      in s4\<lparr>animTimer := animTimer s4 + delta\<rparr>)"

definition updateScreenShake :: "BossScene \<Rightarrow> BossScene" where
  "updateScreenShake s =
     (if screenShakeIntensity s > 0
      then (let s' = s\<lparr>screenShakeIntensity := screenShakeIntensity s * 0.9\<rparr>
            in if screenShakeIntensity s' < 0.5
               then s'\<lparr>screenShakeIntensity := 0\<rparr> else s')
      else s)"

definition BossScene_update :: "FrameInput \<Rightarrow> BossScene \<Rightarrow> BossScene" where
  "BossScene_update fr s =
     (let delta = fr_delta fr;
          s1 = s\<lparr>player := checkDeathPit (GAME_HEIGHT + 50) (movePlayer fr (player s))\<rparr>;
          s2 = updateBoss delta (fr_roll fr) s1
      in updateVoidOrbs delta (updateScreenShake (updateTimers delta s2)))"

subsection \<open>Everything that can happen to the scene\<close>

datatype SceneEvent =
    Frame FrameInput
  | PlayerAttack Rectangle
  | TriggerOverlap
  | Fire nat
  | PlayerFire PlayerCallback

fun sceneStep :: "SceneEvent \<Rightarrow> BossScene \<Rightarrow> BossScene" where
  "sceneStep (Frame fr) s = BossScene_update fr s"
| "sceneStep (PlayerAttack hitbox) s = onPlayerAttack hitbox s"
| "sceneStep TriggerOverlap s = onTriggerOverlap s"
| "sceneStep (Fire i) s = fire i s"
| "sceneStep (PlayerFire cb) s = s\<lparr>player := Player_fire cb (player s)\<rparr>"

text \<open>The scenes after each event of a run, the first scene included.\<close>

fun sceneTrace :: "SceneEvent list \<Rightarrow> BossScene \<Rightarrow> BossScene list" where
  "sceneTrace [] s = [s]"
| "sceneTrace (e # es) s = s # sceneTrace es (sceneStep e s)"

section \<open>Vocabulary of the properties and concrete scenarios\<close>

subsection \<open>State machine\<close>

text \<open>
  The current state is still the object registered under its name. This holds as long
  as no state has been registered again under the name of the current state.
\<close>

definition registered_current :: "'e StateMachine \<Rightarrow> bool" where
  "registered_current m =
     (case sm_currentState m of
        None \<Rightarrow> True
      | Some c \<Rightarrow> (case sm_states m (st_name c) of
                     None \<Rightarrow> False
                   | Some r \<Rightarrow> st_ref r = st_ref c))"

text \<open>
  A state whose hooks count: the entity is the pair of the number of exits and the
  number of entries run so far.
\<close>

definition counting_state :: "nat \<Rightarrow> string \<Rightarrow> (nat \<times> nat) State" where
  "counting_state r nm =
     \<lparr>st_ref = r, st_name = nm,
      onEnter = Some (\<lambda>(exits, enters). (exits, Suc enters)),
      onUpdate = None,
      onExit = Some (\<lambda>(exits, enters). (Suc exits, enters))\<rparr>"

text \<open>A machine with states a and b, in state a.\<close>

definition machine_a :: "(nat \<times> nat) StateMachine" where
  "machine_a =
     setState ''a''
       (addState (counting_state 1 ''b'')
          (addState (counting_state 0 ''a'') (new_StateMachine (0, 0))))"

text \<open>The same machine after another state object has been registered as a.\<close>

definition machine_a_again :: "(nat \<times> nat) StateMachine" where
  "machine_a_again = addState (counting_state 2 ''a'') machine_a"

subsection \<open>Damage contract\<close>

text \<open>
  Inside a flyer's hurt window, while it is alive, the inherited property \<open>state\<close>
  and the retreat timer have the values its \<open>takeDamage\<close> gives them. The constructor
  establishes this, \<open>update\<close> and \<open>takeDamage\<close> keep it.
\<close>

definition flyer_window_inv :: "Flyer \<Rightarrow> bool" where
  "flyer_window_inv f =
     (en_isHurt f \<and> en_isAlive f \<longrightarrow>
        go_state f = FlyerState_num RETREAT \<and> fl_retreatTimer f = fl_retreatDuration f)"

text \<open>A body rectangle for the player at its start position, and a nail swing that
  reaches the boss at its start position.\<close>

definition body0 :: Rectangle where
  "body0 = \<lparr>rx = 138, ry = 497.6, rwidth = 24, rheight = 54.4\<rparr>"

definition nail :: Rectangle where
  "nail = \<lparr>rx = 1050, ry = 495, rwidth = 70, rheight = 50\<rparr>"

text \<open>The scene once the player has walked into the trigger zone and the intro has ended.\<close>

definition fight_begun :: BossScene where
  "fight_begun = sceneStep (Fire 0) (sceneStep TriggerOverlap (new_BossScene body0))"

subsection \<open>Observable health\<close>





subsection \<open>Flyer\<close>

text \<open>
  A flyer as constructed at (300, 200), hovering, is hit for half a point of damage
  from the left and survives; the player stands 300 below it, their sprites apart.
\<close>

definition half_hit_flyer :: Flyer where
  "half_hit_flyer = Flyer_takeDamage (1/2) 250 (new_Flyer 300 200)"

definition flyer_bounds :: Rectangle where
  "flyer_bounds = \<lparr>rx = 276, ry = 176, rwidth = 48, rheight = 48\<rparr>"

definition player_below :: Player where
  "player_below = new_Player 300 500 \<lparr>rx = 288, ry = 477.6, rwidth = 24, rheight = 54.4\<rparr>"

definition player_below_bounds :: Rectangle where
  "player_below_bounds = \<lparr>rx = 276, ry = 468, rwidth = 48, rheight = 64\<rparr>"

subsection \<open>Boss decisions\<close>

text \<open>
  The choice of the next action in the words of the specification, over the close
  and the far threshold, the distance to the player, the phase and the random draw.
\<close>

definition spec_nextAction :: "real \<Rightarrow> real \<Rightarrow> real \<Rightarrow> int \<Rightarrow> real \<Rightarrow> BossState" where
  "spec_nextAction closeThreshold farThreshold distance phase draw =
     (if distance < closeThreshold then SLASH
      else if distance > farThreshold \<and> phase \<ge> 2 \<and> draw > 0.5 then CHARGE
      else if phase \<ge> 2 \<and> draw > 0.7 then SUMMON
      else if phase \<ge> 3 \<and> draw > 0.6 then SLAM
      else WALKING)"

text \<open>The player a frame's boss update sees: moved by the engine, then checked for the pit.\<close>

definition framePlayer :: "FrameInput \<Rightarrow> BossScene \<Rightarrow> Player" where
  "framePlayer fr s = checkDeathPit (GAME_HEIGHT + 50) (movePlayer fr (player s))"

text \<open>Frames with the player far from the boss, at its start position, and near the boss.\<close>

definition frame_far :: "real \<Rightarrow> real \<Rightarrow> FrameInput" where
  "frame_far delta roll =
     \<lparr>fr_delta = delta, fr_roll = roll, fr_playerX = 150, fr_playerY = 520,
      fr_playerBody = body0\<rparr>"

definition frame_near :: "real \<Rightarrow> real \<Rightarrow> FrameInput" where
  "frame_near delta roll =
     \<lparr>fr_delta = delta, fr_roll = roll, fr_playerX = 1030, fr_playerY = 520,
      fr_playerBody = \<lparr>rx = 1018, ry = 497.6, rwidth = 24, rheight = 54.4\<rparr>\<rparr>"

text \<open>
  The boss in its charge, arrived at the left wall, while the player has jumped
  over it; and the boss stunned with the player standing in it.
\<close>

definition charging_at_wall :: BossScene where
  "charging_at_wall =
     fight_begun\<lparr>bossPhase := 2, bossState := CHARGE, stateTimer := 280, bossX := 98,
        bossVelocityX := -600, attackCooldown := 1280,
        bossHitbox := \<lparr>rx = 68, ry = 470, rwidth = 60, rheight = 100\<rparr>\<rparr>"

definition frame_jump :: FrameInput where
  "frame_jump =
     \<lparr>fr_delta = 20, fr_roll = 0, fr_playerX = 60, fr_playerY = 300,
      fr_playerBody = \<lparr>rx = 48, ry = 277.6, rwidth = 24, rheight = 54.4\<rparr>\<rparr>"

definition stunned_on_player :: BossScene where
  "stunned_on_player =
     fight_begun\<lparr>bossState := STUNNED, stateTimer := 2000,
        bossHitbox := \<lparr>rx = 1070, ry = 470, rwidth = 60, rheight = 100\<rparr>,
        player := (player fight_begun)\<lparr>pl_x := 1100, pl_y := 520,
           pl_body := \<lparr>rx = 1088, ry = 497.6, rwidth = 24, rheight = 54.4\<rparr>\<rparr>\<rparr>"


subsection \<open>Boss phases\<close>



definition healthPercent :: "BossScene \<Rightarrow> real" where
  "healthPercent s = bossHealth s / bossMaxHealth s"










text \<open>The fields of the scene that the damage contract of the boss reads and writes.\<close>

definition combat :: "BossScene \<Rightarrow> real \<times> real \<times> int \<times> int list" where
  "combat s = (bossHealth s, bossMaxHealth s, bossPhase s, sc_phaseLog s)"



subsection \<open>A fight\<close>

text \<open>
  The player stands 70 to the left of the boss, which has not moved from its
  throne at (1100, 520), and swings the nail at it. \<open>boss_box\<close> is the boss's
  hitbox there. \<open>stance\<close> collects where the boss is, how it moves, its state, its
  hitbox and how often its death sequence was started; \<open>standing\<close> says that the
  boss is on its throne, active, with at most the 300 ms of invulnerability that a
  hit gives. \<open>pendingVictories\<close> counts the victory callbacks waiting to fire.
\<close>

definition boss_box :: Rectangle where
  "boss_box = \<lparr>rx = 1070, ry = 470, rwidth = 60, rheight = 100\<rparr>"

definition stance :: "BossScene \<Rightarrow> real \<times> real \<times> real \<times> real \<times> BossState \<times> Rectangle \<times> nat" where
  "stance s =
     (bossX s, bossY s, bossVelocityX s, bossVelocityY s, bossState s, bossHitbox s,
      sc_deaths s)"

definition pendingVictories :: "BossScene \<Rightarrow> nat" where
  "pendingVictories s = length (filter (\<lambda>e. snd e = Victory) (sc_delayed s))"

definition standing :: "BossScene \<Rightarrow> bool" where
  "standing s =
     (bossX s = 1100 \<and> bossY s = 520 \<and> bossVelocityX s = 0 \<and> bossVelocityY s = 0 \<and>
      bossState s \<in> {IDLE, SLASH, STUNNED, DYING} \<and>
      rwidth (bossHitbox s) = 60 \<and> rheight (bossHitbox s) = 100 \<and>
      invincibleTimer s \<le> 300)"

text \<open>
  One volley: a frame of 300 ms with the player near, then the nail. A fight of n
  volleys: the player enters the trigger zone, the intro ends, n volleys follow.
\<close>

definition volley :: "BossScene \<Rightarrow> BossScene" where
  "volley s = sceneStep (PlayerAttack nail) (sceneStep (Frame (frame_near 300 0)) s)"

definition fight_events :: "nat \<Rightarrow> SceneEvent list" where
  "fight_events n =
     TriggerOverlap # Fire 0 #
     concat (replicate n [Frame (frame_near 300 0), PlayerAttack nail])"

subsection \<open>Void orbs\<close>


record OrbTick =
  ot_risen :: "(nat \<times> real) list"
  ot_frame :: FrameInput

definition arrive :: "OrbTick \<Rightarrow> VoidOrb list \<times> Player \<Rightarrow> VoidOrb list \<times> Player" where
  "arrive t st =
     (fold (\<lambda>r. map (riseOrb (fst r) (snd r))) (ot_risen t) (fst st),
      movePlayer (ot_frame t) (snd st))"





definition samePlayer :: "Player \<Rightarrow> Player \<Rightarrow> bool" where
  "samePlayer p q = (q\<lparr>pl_x := pl_x p, pl_y := pl_y p, pl_body := pl_body p\<rparr> = p)"



definition tick16 :: OrbTick where
  "tick16 = \<lparr>ot_risen = [], ot_frame = frame_far 16 0\<rparr>"

section \<open>Properties of the state machine\<close>

lemma setState_unknown:
  "sm_states m nm = None \<Longrightarrow>
   setState nm m = m\<lparr>sm_console := sm_console m @ [not_found_msg nm]\<rparr>"
  by (simp add: setState_def)

lemma setState_same_object:
  "sm_states m nm = Some n \<Longrightarrow> is_current m n \<Longrightarrow> setState nm m = m"
  by (simp add: setState_def)

lemma setState_same_name:
  assumes "registered_current m" and "isInState nm m"
  shows "setState nm m = m"
proof -
  from assms(2) obtain c where c: "sm_currentState m = Some c" "st_name c = nm"
    by (auto simp: isInState_def getCurrentState_def)
  with assms(1) obtain r where r: "sm_states m nm = Some r" "st_ref r = st_ref c"
    by (auto simp: registered_current_def split: option.splits)
  have "is_current m r" using c r by (simp add: is_current_def)
  with r show ?thesis by (simp add: setState_same_object)
qed

lemma setState_switch:
  assumes "sm_states m nm = Some n" and "\<not> is_current m n"
  shows "setState nm m =
           m\<lparr>sm_entity := call_hook (onEnter n)
                (case sm_currentState m of
                   None \<Rightarrow> sm_entity m
                 | Some c \<Rightarrow> call_hook (onExit c) (sm_entity m)),
             sm_previousState := sm_currentState m,
             sm_currentState := Some n\<rparr>"
  using assms by (simp add: setState_def Let_def)

lemma machine_a_value:
  "machine_a =
     \<lparr>sm_entity = (0, 1),
      sm_states = [''a'' \<mapsto> counting_state 0 ''a'', ''b'' \<mapsto> counting_state 1 ''b''],
      sm_currentState = Some (counting_state 0 ''a''),
      sm_previousState = None, sm_console = []\<rparr>"
  by (simp add: machine_a_def setState_def addState_def new_StateMachine_def is_current_def
      call_hook_def counting_state_def)

text \<open>
  C4 (as amended). \<open>setState name\<close> on an unknown name only logs the warning:
  entity, current and previous state stay as they are. When the state registered
  under the name is the object that is current, it does nothing at all; this is the
  case whenever the name is the current state's name and the current state is still
  the object registered under its name. Otherwise it runs the \<open>onExit\<close> of the old
  state (if there is one and it has the hook), records the old state as previous,
  switches, and runs the \<open>onEnter\<close> of the new state. The current state changes only
  when the name is registered to an object other than the current one.
\<close>

theorem setState_contract:
  "(sm_states m nm = None \<longrightarrow>
      setState nm m = m\<lparr>sm_console := sm_console m @ [not_found_msg nm]\<rparr>) \<and>
   (\<forall>n. sm_states m nm = Some n \<and> is_current m n \<longrightarrow> setState nm m = m) \<and>
   (registered_current m \<and> isInState nm m \<longrightarrow> setState nm m = m) \<and>
   (\<forall>n. sm_states m nm = Some n \<and> \<not> is_current m n \<longrightarrow>
      setState nm m =
        m\<lparr>sm_entity := call_hook (onEnter n)
             (case sm_currentState m of
                None \<Rightarrow> sm_entity m
              | Some c \<Rightarrow> call_hook (onExit c) (sm_entity m)),
          sm_previousState := sm_currentState m,
          sm_currentState := Some n\<rparr>) \<and>
   (sm_currentState (setState nm m) \<noteq> sm_currentState m \<longrightarrow>
      (\<exists>n. sm_states m nm = Some n \<and> \<not> is_current m n))"
proof (intro conjI allI impI)
  assume "sm_currentState (setState nm m) \<noteq> sm_currentState m"
  then show "\<exists>n. sm_states m nm = Some n \<and> \<not> is_current m n"
    by (cases "sm_states m nm") (auto simp: setState_def split: if_splits)
qed (auto simp: setState_unknown setState_same_object setState_same_name setState_switch)

text \<open>
  The contract at the machine with states a and b, in state a after one entry:
  an unknown name, the current name, and a switch to b.
\<close>

theorem setState_contract_witness:
  "sm_states machine_a ''c'' = None \<and>
   setState ''c'' machine_a = machine_a\<lparr>sm_console := [not_found_msg ''c'']\<rparr> \<and>
   sm_states machine_a ''a'' = Some (counting_state 0 ''a'') \<and>
   is_current machine_a (counting_state 0 ''a'') \<and>
   registered_current machine_a \<and> isInState ''a'' machine_a \<and>
   setState ''a'' machine_a = machine_a \<and>
   sm_states machine_a ''b'' = Some (counting_state 1 ''b'') \<and>
   \<not> is_current machine_a (counting_state 1 ''b'') \<and>
   sm_entity (setState ''b'' machine_a) = (1, 2) \<and>
   getCurrentState (setState ''b'' machine_a) = Some ''b'' \<and>
   getPreviousState (setState ''b'' machine_a) = Some ''a'' \<and>
   sm_currentState (setState ''b'' machine_a) \<noteq> sm_currentState machine_a"
proof -
  have unknown: "sm_states machine_a ''c'' = None"
    by (simp add: machine_a_value)
  have a: "sm_states machine_a ''a'' = Some (counting_state 0 ''a'')"
    and cur: "is_current machine_a (counting_state 0 ''a'')"
    and reg: "registered_current machine_a" and ina: "isInState ''a'' machine_a"
    by (simp_all add: machine_a_value is_current_def registered_current_def isInState_def
        getCurrentState_def counting_state_def)
  have b: "sm_states machine_a ''b'' = Some (counting_state 1 ''b'')"
    and notcur: "\<not> is_current machine_a (counting_state 1 ''b'')"
    by (simp_all add: machine_a_value is_current_def counting_state_def)
  have 1: "setState ''c'' machine_a = machine_a\<lparr>sm_console := [not_found_msg ''c'']\<rparr>"
    using setState_contract [of machine_a "''c''"] unknown by (simp add: machine_a_value)
  have 2: "setState ''a'' machine_a = machine_a"
    using setState_contract [of machine_a "''a''"] reg ina by blast
  have 3: "setState ''b'' machine_a =
             machine_a\<lparr>sm_entity := call_hook (onEnter (counting_state 1 ''b''))
                  (case sm_currentState machine_a of
                     None \<Rightarrow> sm_entity machine_a
                   | Some c \<Rightarrow> call_hook (onExit c) (sm_entity machine_a)),
               sm_previousState := sm_currentState machine_a,
               sm_currentState := Some (counting_state 1 ''b'')\<rparr>"
    using setState_contract [of machine_a "''b''"] b notcur by blast
  have 4: "sm_entity (setState ''b'' machine_a) = (1, 2)"
    and 5: "getCurrentState (setState ''b'' machine_a) = Some ''b''"
    and 6: "getPreviousState (setState ''b'' machine_a) = Some ''a''"
    and 7: "sm_currentState (setState ''b'' machine_a) \<noteq> sm_currentState machine_a"
    unfolding 3
    by (simp_all add: machine_a_value call_hook_def counting_state_def getCurrentState_def
        getPreviousState_def)
  from unknown a cur reg ina b notcur 1 2 4 5 6 7 show ?thesis by blast
qed

text \<open>
  C4 as stated fails when a second state object has been registered under the name
  of the current state: the machine is in a state named a, and \<open>setState\<close> of that
  name runs the old object's \<open>onExit\<close> and the new object's \<open>onEnter\<close>.
\<close>

theorem setState_same_name_counterexample:
  "isInState ''a'' machine_a_again \<and>
   sm_entity machine_a_again = (0, 1) \<and>
   sm_entity (setState ''a'' machine_a_again) = (1, 2)"
  by (simp add: machine_a_again_def machine_a_value isInState_def getCurrentState_def
      setState_def addState_def is_current_def call_hook_def counting_state_def)

section \<open>Properties of the damage contract\<close>

lemma Player_takeDamage_invincible:
  "pl_invincible p \<Longrightarrow> Player_takeDamage amount sourceX p = p"
  by (simp add: Player_takeDamage_def)

lemma respawn_invincible: "pl_invincible (respawn p)"
  by (simp add: respawn_def)

lemma Player_die_invincible: "pl_invincible (Player_die p)"
  by (simp add: Player_die_def respawn_def Let_def)

lemma Player_takeDamage_opens_window: "pl_invincible (Player_takeDamage amount sourceX p)"
  by (simp add: Player_takeDamage_def Let_def Player_die_invincible)

lemma Enemy_takeDamage_guard:
  "en_isHurt e \<or> \<not> en_isAlive e \<Longrightarrow> Enemy_takeDamage amount sourceX e = e"
  by (simp add: Enemy_takeDamage_def)

lemma Enemy_takeDamage_opens_window:
  "en_isHurt (Enemy_takeDamage amount sourceX e) \<or> \<not> en_isAlive (Enemy_takeDamage amount sourceX e)"
  by (simp add: Enemy_takeDamage_def Let_def Enemy_die_def)

lemma Enemy_takeDamage_health:
  "\<not> en_isHurt e \<Longrightarrow> en_isAlive e \<Longrightarrow>
   en_health (Enemy_takeDamage amount sourceX e) = en_health e - amount"
  by (simp add: Enemy_takeDamage_def Let_def Enemy_die_def)

lemma Flyer_takeDamage_guard_health:
  "en_isHurt f \<or> \<not> en_isAlive f \<Longrightarrow>
   en_health (Flyer_takeDamage amount sourceX f) = en_health f"
  by (simp add: Flyer_takeDamage_def Let_def Enemy_takeDamage_guard)

lemma Flyer_takeDamage_guard:
  "flyer_window_inv f \<Longrightarrow> en_isHurt f \<or> \<not> en_isAlive f \<Longrightarrow>
   Flyer_takeDamage amount sourceX f = f"
  by (auto simp add: Flyer_takeDamage_def Let_def Enemy_takeDamage_guard flyer_window_inv_def)

lemma Flyer_takeDamage_inv: "flyer_window_inv (Flyer_takeDamage amount sourceX f)"
  by (simp add: Flyer_takeDamage_def Let_def flyer_window_inv_def)

lemma Flyer_takeDamage_opens_window:
  "en_isHurt (Flyer_takeDamage amount sourceX f) \<or> \<not> en_isAlive (Flyer_takeDamage amount sourceX f)"
  using Enemy_takeDamage_opens_window [of amount sourceX f]
  by (auto simp add: Flyer_takeDamage_def Let_def)

lemma new_Flyer_inv: "flyer_window_inv (new_Flyer x y)"
  by (simp add: flyer_window_inv_def new_Flyer_def)

lemma updateHurt_fields:
  "en_isAlive (updateHurt d f) = en_isAlive f"
  "go_state (updateHurt d f) = go_state f"
  "en_isHurt (updateHurt d f) \<Longrightarrow> en_isHurt f"
  by (auto simp add: updateHurt_def Let_def split: if_splits)

lemma updateHurt_flyer_fields:
  "fl_retreatTimer (updateHurt d f) = fl_retreatTimer f"
  "fl_retreatDuration (updateHurt d f) = fl_retreatDuration f"
  by (auto simp add: updateHurt_def Let_def split: if_splits)

lemma Flyer_checkPlayerCollision_hurt:
  "en_isHurt (fst (Flyer_checkPlayerCollision b pb (f, p))) = en_isHurt f"
  by (simp add: Flyer_checkPlayerCollision_def Let_def)

lemma behaviour_hurt:
  "en_isHurt (updateHover d dd f) = en_isHurt f"
  "en_isHurt (updateTrack d p f) = en_isHurt f"
  "en_isHurt (updateSwoop f) = en_isHurt f"
  "en_isHurt (updateRetreat d f) = en_isHurt f"
  "en_isHurt (facePlayer x f) = en_isHurt f"
  by (auto simp add: updateHover_def updateTrack_def updateSwoop_def updateRetreat_def
      facePlayer_def startSwoop_def Let_def split: option.splits)

lemma Flyer_update_inv:
  assumes "flyer_window_inv f"
  shows "flyer_window_inv (fst (Flyer_update delta b pb (f, p)))"
proof (cases "en_isAlive f \<and> en_isHurt (updateHurt delta f)")
  case True
  then have "en_isHurt f" by (auto dest: updateHurt_fields(3))
  with True assms show ?thesis
    by (simp add: Flyer_update_def Let_def flyer_window_inv_def updateHurt_fields
        updateHurt_flyer_fields)
next
  case False
  show ?thesis
  proof (cases "en_isAlive f")
    case dead: False
    then show ?thesis using assms by (simp add: Flyer_update_def Let_def)
  next
    case True
    with False have nh: "\<not> en_isHurt (updateHurt delta f)" by simp
    have "\<not> en_isHurt (fst (Flyer_update delta b pb (f, p)))"
      using True nh
      by (simp add: Flyer_update_def Let_def Flyer_checkPlayerCollision_hurt behaviour_hurt
          split: FlyerState.splits)
    then show ?thesis by (simp add: flyer_window_inv_def)
  qed
qed

lemma BaseEnemy_takeDamage_guard:
  "be_isHurt e \<or> \<not> be_isAlive e \<Longrightarrow> BaseEnemy_takeDamage amount sourceX e = e"
  by (simp add: BaseEnemy_takeDamage_def)

lemma BaseEnemy_takeDamage_opens_window:
  "be_isHurt (BaseEnemy_takeDamage amount sourceX e) \<or>
   \<not> be_isAlive (BaseEnemy_takeDamage amount sourceX e)"
  by (simp add: BaseEnemy_takeDamage_def Let_def BaseEnemy_die_def)

lemma Boss_takeDamage_guard:
  "bo_isHurt b \<or> \<not> bo_isAlive b \<Longrightarrow> Boss_takeDamage amount sourceX b = b"
  by (simp add: Boss_takeDamage_def)

lemma checkPhaseTransition_hurt:
  "bo_isHurt (checkPhaseTransition b) = bo_isHurt b"
  by (simp add: checkPhaseTransition_def Boss_transitionToPhase_def Let_def split: BossPhase.splits)

lemma Boss_takeDamage_opens_window:
  "bo_isHurt (Boss_takeDamage amount sourceX b) \<or> \<not> bo_isAlive (Boss_takeDamage amount sourceX b)"
  by (simp add: Boss_takeDamage_def Let_def Boss_die_def checkPhaseTransition_hurt)

lemma onPlayerAttack_guard:
  "invincibleTimer s > 0 \<or> bossState s = DEAD \<Longrightarrow> onPlayerAttack hitbox s = s"
  by (auto simp add: onPlayerAttack_def)

lemma bossTakeDamage_timer: "invincibleTimer (bossTakeDamage amount s) = 300"
  by (simp add: bossTakeDamage_def Let_def transitionToPhase_def startBossDeath_def delayedCall_def)



lemma fight_begun_value:
  "fight_begun =
     (new_BossScene body0)\<lparr>bossState := IDLE, stateTimer := 500,
        screenShakeIntensity := 5, sc_triggerZone := False\<rparr>"
  by (simp add: fight_begun_def fire_def onTriggerOverlap_def startBossFight_def
      delayedCall_def new_BossScene_def)

text \<open>
  The guards of the damage contracts. A \<open>takeDamage\<close> call inside the hurt or
  invulnerability window, or on an entity whose death has been recorded, changes
  nothing, health included, and a second call right after a first one changes
  nothing either. This holds for the player (window: \<open>invincible\<close>), the crawler
  (the inherited \<open>Enemy.takeDamage\<close>), the flyer, the enemies of the enemy manager
  and the boss entity (window: \<open>isHurt\<close>, dead: not \<open>isAlive\<close>), and for the boss of
  the scene, whose damage enters through the \<open>player-attack\<close> listener, as far as
  its guards go (window: \<open>invincibleTimer\<close>, dead: state \<open>DEAD\<close>). For the flyer the
  call writes the property \<open>state\<close> and the retreat timer whenever the flyer is
  alive; inside a window these already have the written values, so the call is
  still a no-op.
\<close>

lemma takeDamage_guarded:
  "(pl_invincible p \<longrightarrow> Player_takeDamage amount sourceX p = p) \<and>
   Player_takeDamage amount' sourceX' (Player_takeDamage amount sourceX p) =
     Player_takeDamage amount sourceX p \<and>
   (en_isHurt c \<or> \<not> en_isAlive c \<longrightarrow> Enemy_takeDamage amount sourceX (c::Crawler) = c) \<and>
   Enemy_takeDamage amount' sourceX' (Enemy_takeDamage amount sourceX c) =
     Enemy_takeDamage amount sourceX c \<and>
   (\<not> en_isHurt c \<and> en_isAlive c \<longrightarrow>
      en_health (Enemy_takeDamage amount' sourceX' (Enemy_takeDamage amount sourceX c)) =
        en_health c - amount) \<and>
   (en_isHurt f \<or> \<not> en_isAlive f \<longrightarrow>
      en_health (Flyer_takeDamage amount sourceX f) = en_health f) \<and>
   (flyer_window_inv f \<and> (en_isHurt f \<or> \<not> en_isAlive f) \<longrightarrow>
      Flyer_takeDamage amount sourceX f = f) \<and>
   Flyer_takeDamage amount' sourceX' (Flyer_takeDamage amount sourceX f) =
     Flyer_takeDamage amount sourceX f \<and>
   (be_isHurt e \<or> \<not> be_isAlive e \<longrightarrow> BaseEnemy_takeDamage amount sourceX e = e) \<and>
   BaseEnemy_takeDamage amount' sourceX' (BaseEnemy_takeDamage amount sourceX e) =
     BaseEnemy_takeDamage amount sourceX e \<and>
   (bo_isHurt b \<or> \<not> bo_isAlive b \<longrightarrow> Boss_takeDamage amount sourceX b = b) \<and>
   Boss_takeDamage amount' sourceX' (Boss_takeDamage amount sourceX b) =
     Boss_takeDamage amount sourceX b \<and>
   (invincibleTimer s > 0 \<or> bossState s = DEAD \<longrightarrow> onPlayerAttack hitbox s = s) \<and>
   onPlayerAttack hitbox (bossTakeDamage amount s) = bossTakeDamage amount s \<and>
   bossHealth (onPlayerAttack hitbox (bossTakeDamage amount s)) = bossHealth s - amount"
proof -
  have scene: "onPlayerAttack hitbox (bossTakeDamage amount s) = bossTakeDamage amount s"
    by (rule onPlayerAttack_guard) (simp add: bossTakeDamage_timer)
  have health: "bossHealth (bossTakeDamage amount s) = bossHealth s - amount"
    by (simp add: bossTakeDamage_def Let_def transitionToPhase_def startBossDeath_def
        delayedCall_def)
  have crawler: "Enemy_takeDamage amount' sourceX' (Enemy_takeDamage amount sourceX c) =
     Enemy_takeDamage amount sourceX c"
    by (rule Enemy_takeDamage_guard) (rule Enemy_takeDamage_opens_window)
  have flyer: "Flyer_takeDamage amount' sourceX' (Flyer_takeDamage amount sourceX f) =
     Flyer_takeDamage amount sourceX f"
    by (rule Flyer_takeDamage_guard) (rule Flyer_takeDamage_inv, rule Flyer_takeDamage_opens_window)
  show ?thesis
    by (intro conjI impI)
       (simp_all add: Player_takeDamage_invincible Player_takeDamage_opens_window
          Enemy_takeDamage_guard crawler Enemy_takeDamage_health
          Flyer_takeDamage_guard_health Flyer_takeDamage_guard flyer
          BaseEnemy_takeDamage_guard BaseEnemy_takeDamage_opens_window
          Boss_takeDamage_guard Boss_takeDamage_opens_window
          onPlayerAttack_guard scene health)
qed



text \<open>
  The guards at the entities as constructed, each hit once by the player's nail,
  and at the scene's boss when the fight has begun.
\<close>

lemma takeDamage_guarded_witness:
  "pl_invincible (Player_takeDamage 1 0 (new_Player 150 520 body0)) \<and>
   Player_takeDamage 2 0 (Player_takeDamage 1 0 (new_Player 150 520 body0)) =
     Player_takeDamage 1 0 (new_Player 150 520 body0) \<and>
   en_isHurt (Enemy_takeDamage 1 0 (new_Crawler 500 500)) \<and>
   Enemy_takeDamage 1 0 (Enemy_takeDamage 1 0 (new_Crawler 500 500)) =
     Enemy_takeDamage 1 0 (new_Crawler 500 500) \<and>
   \<not> en_isHurt (new_Crawler 500 500) \<and> en_isAlive (new_Crawler 500 500) \<and>
   en_health (Enemy_takeDamage 2 0 (Enemy_takeDamage 1 0 (new_Crawler 500 500))) = 1 \<and>
   \<not> en_isAlive (Flyer_takeDamage 1 0 (new_Flyer 300 200)) \<and>
   flyer_window_inv (Flyer_takeDamage 1 0 (new_Flyer 300 200)) \<and>
   Flyer_takeDamage 1 0 (Flyer_takeDamage 1 0 (new_Flyer 300 200)) =
     Flyer_takeDamage 1 0 (new_Flyer 300 200) \<and>
   en_health (Flyer_takeDamage 1 0 (Flyer_takeDamage 1 0 (new_Flyer 300 200))) = 0 \<and>
   be_isHurt (BaseEnemy_takeDamage 1 0 (new_BaseEnemy 500)) \<and>
   BaseEnemy_takeDamage 1 0 (BaseEnemy_takeDamage 1 0 (new_BaseEnemy 500)) =
     BaseEnemy_takeDamage 1 0 (new_BaseEnemy 500) \<and>
   bo_isHurt (Boss_takeDamage 1 0 (new_Boss 1000)) \<and>
   Boss_takeDamage 1 0 (Boss_takeDamage 1 0 (new_Boss 1000)) =
     Boss_takeDamage 1 0 (new_Boss 1000) \<and>
   invincibleTimer (bossTakeDamage 1 fight_begun) > 0 \<and>
   onPlayerAttack nail (bossTakeDamage 1 fight_begun) = bossTakeDamage 1 fight_begun \<and>
   bossHealth (onPlayerAttack nail (bossTakeDamage 1 fight_begun)) = 19"
proof -
  have hp: "pl_invincible (Player_takeDamage 1 0 (new_Player 150 520 body0))"
    by (simp add: Player_takeDamage_def new_Player_def Let_def)
  have hc: "en_isHurt (Enemy_takeDamage 1 0 (new_Crawler 500 500))"
    by (simp add: Enemy_takeDamage_def new_Crawler_def Let_def)
  have hc0: "\<not> en_isHurt (new_Crawler 500 500)" "en_isAlive (new_Crawler 500 500)"
    "en_health (new_Crawler 500 500) = 2"
    by (simp_all add: new_Crawler_def)
  have hf: "\<not> en_isAlive (Flyer_takeDamage 1 0 (new_Flyer 300 200))"
    "en_health (Flyer_takeDamage 1 0 (new_Flyer 300 200)) = 0"
    by (simp_all add: Flyer_takeDamage_def Enemy_takeDamage_def Enemy_die_def new_Flyer_def
        FLYER_HEALTH_def Let_def)
  have hfi: "flyer_window_inv (Flyer_takeDamage 1 0 (new_Flyer 300 200))"
    using hf by (simp add: flyer_window_inv_def)
  have he: "be_isHurt (BaseEnemy_takeDamage 1 0 (new_BaseEnemy 500))"
    by (simp add: BaseEnemy_takeDamage_def new_BaseEnemy_def Let_def)
  have hb: "bo_isHurt (Boss_takeDamage 1 0 (new_Boss 1000))"
    by (simp add: Boss_takeDamage_def new_Boss_def Let_def Boss_die_def checkPhaseTransition_hurt)
  have hs: "invincibleTimer (bossTakeDamage 1 fight_begun) > 0"
    by (simp add: bossTakeDamage_timer)
  have hh: "bossHealth fight_begun = 20"
    by (simp add: fight_begun_value new_BossScene_def)
  note inside =
    takeDamage_guarded [where p = "Player_takeDamage 1 0 (new_Player 150 520 body0)"
      and c = "Enemy_takeDamage 1 0 (new_Crawler 500 500)"
      and f = "Flyer_takeDamage 1 0 (new_Flyer 300 200)"
      and e = "BaseEnemy_takeDamage 1 0 (new_BaseEnemy 500)"
      and b = "Boss_takeDamage 1 0 (new_Boss 1000)"
      and s = "bossTakeDamage 1 fight_begun"
      and amount = 1 and sourceX = 0 and hitbox = nail]
  note twice =
    takeDamage_guarded [where p = "new_Player 150 520 body0"
      and c = "new_Crawler 500 500" and f = "new_Flyer 300 200"
      and e = "new_BaseEnemy 500" and b = "new_Boss 1000" and s = fight_begun
      and amount = 1 and sourceX = 0 and amount' = 2 and sourceX' = 0 and hitbox = nail]
  have w1: "Player_takeDamage 2 0 (Player_takeDamage 1 0 (new_Player 150 520 body0)) =
     Player_takeDamage 1 0 (new_Player 150 520 body0)"
    using twice by blast
  have w2: "Enemy_takeDamage 1 0 (Enemy_takeDamage 1 0 (new_Crawler 500 500)) =
     Enemy_takeDamage 1 0 (new_Crawler 500 500)"
    using inside hc by blast
  have w3: "en_health (Enemy_takeDamage 2 0 (Enemy_takeDamage 1 0 (new_Crawler 500 500))) = 1"
  proof -
    from twice hc0(1,2)
    have "en_health (Enemy_takeDamage 2 0 (Enemy_takeDamage 1 0 (new_Crawler 500 500))) =
            en_health (new_Crawler 500 500) - 1"
      by blast
    with hc0(3) show ?thesis by simp
  qed
  have w4: "Flyer_takeDamage 1 0 (Flyer_takeDamage 1 0 (new_Flyer 300 200)) =
     Flyer_takeDamage 1 0 (new_Flyer 300 200)"
    using inside hf hfi by blast
  have w5: "en_health (Flyer_takeDamage 1 0 (Flyer_takeDamage 1 0 (new_Flyer 300 200))) = 0"
  proof -
    from inside hf(1)
    have "en_health (Flyer_takeDamage 1 0 (Flyer_takeDamage 1 0 (new_Flyer 300 200))) =
            en_health (Flyer_takeDamage 1 0 (new_Flyer 300 200))"
      by blast
    with hf(2) show ?thesis by simp
  qed
  have w6: "BaseEnemy_takeDamage 1 0 (BaseEnemy_takeDamage 1 0 (new_BaseEnemy 500)) =
     BaseEnemy_takeDamage 1 0 (new_BaseEnemy 500)"
    using inside he by blast
  have w7: "Boss_takeDamage 1 0 (Boss_takeDamage 1 0 (new_Boss 1000)) =
     Boss_takeDamage 1 0 (new_Boss 1000)"
    using inside hb by blast
  have w8: "onPlayerAttack nail (bossTakeDamage 1 fight_begun) = bossTakeDamage 1 fight_begun"
    using inside hs by blast
  have w9: "bossHealth (onPlayerAttack nail (bossTakeDamage 1 fight_begun)) = 19"
  proof -
    from twice
    have "bossHealth (onPlayerAttack nail (bossTakeDamage 1 fight_begun)) =
            bossHealth fight_begun - 1"
      by blast
    with hh show ?thesis by simp
  qed
  from hp w1 hc w2 hc0 w3 hf hfi w4 w5 he w6 hb w7 hs w8 w9 show ?thesis
    by blast
qed

text \<open>
  Outside the window a call on a live entity lands: it takes the amount off the
  health (the player's death restores the full health before the call returns).
  The listener of the scene's boss lets the nail's one point through in every state
  but dormant, awakening and dead.
\<close>

lemma takeDamage_lands:
  "(\<not> pl_invincible p \<longrightarrow>
      pl_health (Player_takeDamage amount sourceX p) =
        (if pl_health p - amount \<le> 0 then pl_maxHealth p else pl_health p - amount)) \<and>
   (\<not> en_isHurt c \<and> en_isAlive c \<longrightarrow>
      en_health (Enemy_takeDamage amount sourceX c) = en_health c - amount) \<and>
   (\<not> en_isHurt f \<and> en_isAlive f \<longrightarrow>
      en_health (Flyer_takeDamage amount sourceX f) = en_health f - amount) \<and>
   (\<not> be_isHurt e \<and> be_isAlive e \<longrightarrow>
      be_health (BaseEnemy_takeDamage amount sourceX e) = be_health e - amount) \<and>
   (\<not> bo_isHurt b \<and> bo_isAlive b \<longrightarrow>
      bo_health (Boss_takeDamage amount sourceX b) = bo_health b - amount) \<and>
   (bossState s \<noteq> DORMANT \<and> bossState s \<noteq> AWAKENING \<and> bossState s \<noteq> DEAD \<and>
    invincibleTimer s \<le> 0 \<and> Overlaps hitbox (bossHitbox s) \<longrightarrow>
      bossHealth (onPlayerAttack hitbox s) = bossHealth s - 1)"
  by (intro conjI impI)
     (simp_all add: Player_takeDamage_def Player_die_def respawn_def Let_def
        Enemy_takeDamage_def Enemy_die_def Flyer_takeDamage_def
        BaseEnemy_takeDamage_def BaseEnemy_die_def
        Boss_takeDamage_def Boss_die_def checkPhaseTransition_def Boss_transitionToPhase_def
        onPlayerAttack_def bossTakeDamage_def transitionToPhase_def startBossDeath_def
        delayedCall_def split: BossPhase.splits)

section \<open>Properties of the flyer\<close>

lemma sqrt_less_iff_square: "0 < r \<Longrightarrow> (sqrt d < r) = (d < r * r)"
proof -
  assume "0 < r"
  then have "sqrt (r * r) = r" by simp
  then have "(sqrt d < r) = (sqrt d < sqrt (r * r))" by simp
  also have "\<dots> = (d < r * r)" by (rule real_sqrt_less_iff)
  finally show ?thesis .
qed

lemma Flyer_takeDamage_currentState:
  "fl_currentState (Flyer_takeDamage amount sourceX f) = fl_currentState f"
  by (simp add: Flyer_takeDamage_def Enemy_takeDamage_def Enemy_die_def Let_def)

lemma half_hit_flyer_value:
  "half_hit_flyer =
     (new_Flyer 300 200)\<lparr>en_health := 1/2, en_isHurt := True, en_hurtTimer := 200,
        en_velX := 300, en_velY := -100, go_state := 3, fl_retreatTimer := 1500\<rparr>"
  by (simp add: half_hit_flyer_def Flyer_takeDamage_def Enemy_takeDamage_def new_Flyer_def
      FLYER_HEALTH_def Let_def)

text \<open>
  C8, which the code does not satisfy. \<open>Flyer.takeDamage\<close> assigns \<open>RETREAT\<close> to
  the inherited property \<open>state\<close>, while the behaviour that \<open>update\<close> dispatches on
  is the field \<open>currentState\<close>, which no \<open>takeDamage\<close> changes. A hovering flyer that
  survives a hit is still hovering: on the first update after the hurt window the
  hover behaviour runs (the hover offset advances, the flyer detects the player and
  starts tracking) and the retreat timer is not counted down.
\<close>

theorem flyer_hit_keeps_behaviour:
  "fl_currentState (Flyer_takeDamage amount sourceX f) = fl_currentState f \<and>
   en_isAlive half_hit_flyer \<and> en_isHurt half_hit_flyer \<and>
   en_health half_hit_flyer = 1/2 \<and>
   fl_currentState half_hit_flyer = HOVER \<and>
   go_state half_hit_flyer = FlyerState_num RETREAT \<and>
   \<not> en_isHurt (fst (Flyer_update 250 flyer_bounds player_below_bounds
                      (half_hit_flyer, player_below))) \<and>
   fl_currentState (fst (Flyer_update 250 flyer_bounds player_below_bounds
                      (half_hit_flyer, player_below))) = TRACK \<and>
   fl_hoverOffset (fst (Flyer_update 250 flyer_bounds player_below_bounds
                      (half_hit_flyer, player_below))) = 1/2 \<and>
   fl_retreatTimer (fst (Flyer_update 250 flyer_bounds player_below_bounds
                      (half_hit_flyer, player_below))) = 1500"
  unfolding half_hit_flyer_value
  by (simp add: Flyer_takeDamage_currentState Flyer_update_def updateHurt_def updateHover_def facePlayer_def
      Flyer_checkPlayerCollision_def Overlaps_def flyer_bounds_def player_below_bounds_def
      player_below_def new_Player_def new_Flyer_def Distance_Between_def Let_def
      sqrt_less_iff_square FLYER_DETECTION_RANGE_def FLYER_HOVER_SPEED_def)

section \<open>What the steps of a frame leave alone\<close>

lemma hurtPlayer_fields [simp]:
  "bossState (hurtPlayer a x s) = bossState s"
  "bossVelocityX (hurtPlayer a x s) = bossVelocityX s"
  "stateTimer (hurtPlayer a x s) = stateTimer s"
  "bossX (hurtPlayer a x s) = bossX s"
  "bossHitbox (hurtPlayer a x s) = bossHitbox s"
  by (simp_all add: hurtPlayer_def)

lemma checkBossPlayerCollision_fields [simp]:
  "bossState (checkBossPlayerCollision s) = bossState s"
  "bossVelocityX (checkBossPlayerCollision s) = bossVelocityX s"
  "stateTimer (checkBossPlayerCollision s) = stateTimer s"
  by (simp_all add: checkBossPlayerCollision_def)

lemma applyVelocity_fields [simp]:
  "bossState (applyVelocity d s) = bossState s"
  "bossVelocityX (applyVelocity d s) = bossVelocityX s"
  "stateTimer (applyVelocity d s) = stateTimer s"
  "player (applyVelocity d s) = player s"
  by (simp_all add: applyVelocity_def Let_def)

lemma updateTimers_fields [simp]:
  "bossState (updateTimers d s) = bossState s"
  "bossVelocityX (updateTimers d s) = bossVelocityX s"
  "stateTimer (updateTimers d s) = stateTimer s"
  by (simp_all add: updateTimers_def Let_def)

lemma updateScreenShake_fields [simp]:
  "bossState (updateScreenShake s) = bossState s"
  "bossVelocityX (updateScreenShake s) = bossVelocityX s"
  "stateTimer (updateScreenShake s) = stateTimer s"
  by (simp_all add: updateScreenShake_def Let_def)

lemma updateVoidOrbs_fields [simp]:
  "bossState (updateVoidOrbs d s) = bossState s"
  "bossVelocityX (updateVoidOrbs d s) = bossVelocityX s"
  "stateTimer (updateVoidOrbs d s) = stateTimer s"
  by (simp_all add: updateVoidOrbs_def split: prod.splits)

lemma BossScene_update_fields:
  "bossState (BossScene_update fr s) =
     bossState (updateBoss (fr_delta fr) (fr_roll fr) (s\<lparr>player := framePlayer fr s\<rparr>))"
  "bossVelocityX (BossScene_update fr s) =
     bossVelocityX (updateBoss (fr_delta fr) (fr_roll fr) (s\<lparr>player := framePlayer fr s\<rparr>))"
  "stateTimer (BossScene_update fr s) =
     stateTimer (updateBoss (fr_delta fr) (fr_roll fr) (s\<lparr>player := framePlayer fr s\<rparr>))"
  by (simp_all add: BossScene_update_def Let_def framePlayer_def)

lemma updateBoss_active:
  "bossState s \<noteq> DORMANT \<Longrightarrow> bossState s \<noteq> AWAKENING \<Longrightarrow> bossState s \<noteq> DEAD \<Longrightarrow>
   updateBoss delta roll s =
     checkBossPlayerCollision
       (applyVelocity delta
          (bossStateMachine roll
             (s\<lparr>stateTimer := stateTimer s - delta,
                bossFacing := (if pl_x (player s) < bossX s then -1 else 1)\<rparr>)))"
  by (simp add: updateBoss_def Let_def)

lemma updateBoss_inactive:
  "bossState s = DORMANT \<or> bossState s = DEAD \<Longrightarrow> updateBoss delta roll s = s"
  by (auto simp add: updateBoss_def)

section \<open>Properties of the boss's decisions\<close>

lemma bossState_starts [simp]:
  "bossState (startSlash s) = SLASH"
  "bossState (startCharge s) = CHARGE"
  "bossState (startSummon s) = SUMMON"
  "bossState (startSlam s) = SLAM"
  by (simp_all add: startSlash_def startCharge_def startSummon_def startSlam_def
      delayedCall_def Let_def)

lemma bossState_chooseNextAction:
  "bossState (chooseNextAction roll s) =
     spec_nextAction 120 400 \<bar>pl_x (player s) - bossX s\<bar> (bossPhase s) roll"
  by (simp add: chooseNextAction_def spec_nextAction_def Let_def)

lemma bossState_updateIdle:
  "bossState (updateIdle roll s) =
     (if stateTimer s \<le> 0 \<and> attackCooldown s \<le> 0
      then spec_nextAction 120 400 \<bar>pl_x (player s) - bossX s\<bar> (bossPhase s) roll
      else bossState s)"
  by (simp add: updateIdle_def Let_def bossState_chooseNextAction)

lemma bossState_updateBoss_idle:
  assumes "bossState s = IDLE"
  shows "bossState (updateBoss delta roll s) =
     (if stateTimer s - delta \<le> 0 \<and> attackCooldown s \<le> 0
      then spec_nextAction 120 400 \<bar>pl_x (player s) - bossX s\<bar> (bossPhase s) roll
      else IDLE)"
  using assms by (simp add: updateBoss_active bossStateMachine_def bossState_updateIdle)

lemma bossState_frame_idle:
  assumes "bossState s = IDLE"
  shows "bossState (BossScene_update fr s) =
     (if stateTimer s - fr_delta fr \<le> 0 \<and> attackCooldown s \<le> 0
      then spec_nextAction 120 400 \<bar>pl_x (framePlayer fr s) - bossX s\<bar> (bossPhase s) (fr_roll fr)
      else IDLE)"
  using assms by (simp add: BossScene_update_fields bossState_updateBoss_idle)

lemma bossState_bossTakeDamage:
  "bossState (bossTakeDamage a s) = bossState s \<or>
   bossState (bossTakeDamage a s) = STUNNED \<or>
   bossState (bossTakeDamage a s) = DYING"
  by (simp add: bossTakeDamage_def transitionToPhase_def startBossDeath_def delayedCall_def
      Let_def)

lemma bossState_onPlayerAttack:
  "bossState (onPlayerAttack hb s) = bossState s \<or>
   bossState (onPlayerAttack hb s) = STUNNED \<or>
   bossState (onPlayerAttack hb s) = DYING"
  using bossState_bossTakeDamage [of 1 s] by (auto simp add: onPlayerAttack_def)

lemma bossState_callback:
  "bossState (callback cb s) = bossState s \<or>
   bossState (callback cb s) = IDLE \<or>
   bossState (callback cb s) = DEAD"
  by (cases cb)
     (simp_all add: spawnVoidOrb_def createSlamWave_def delayedCall_def Let_def)

lemma bossState_fire:
  "bossState (fire i s) = bossState s \<or>
   bossState (fire i s) = IDLE \<or>
   bossState (fire i s) = DEAD"
proof (cases "i < length (sc_delayed s)")
  case True
  then show ?thesis
    using bossState_callback [of "snd (sc_delayed s ! i)"
        "s\<lparr>sc_delayed := take i (sc_delayed s) @ drop (Suc i) (sc_delayed s)\<rparr>"]
    by (simp add: fire_def)
next
  case False
  then show ?thesis by (simp add: fire_def)
qed

lemma idle_leaves_by_frame:
  assumes idle: "bossState s = IDLE"
    and act: "bossState (sceneStep e s) \<in> {WALKING, SLASH, CHARGE, SUMMON, SLAM}"
  shows "\<exists>fr. e = Frame fr \<and> stateTimer s - fr_delta fr \<le> 0 \<and> attackCooldown s \<le> 0"
proof (cases e)
  case (Frame fr)
  with idle act show ?thesis
    by (auto simp add: bossState_frame_idle split: if_splits)
next
  case (PlayerAttack hb)
  with idle act bossState_onPlayerAttack [of hb s] show ?thesis by auto
next
  case TriggerOverlap
  with idle act show ?thesis by (simp add: onTriggerOverlap_def)
next
  case (Fire i)
  with idle act bossState_fire [of i s] show ?thesis by auto
next
  case (PlayerFire cb)
  with idle act show ?thesis by simp
qed

text \<open>
  C5. A frame takes the idle boss to another state only when the idle timer,
  counted down by the frame, and the attack cooldown have both run out, and then
  the new state is the one the priority list names: slash below the close
  threshold of 120, else charge beyond the far threshold of 400 in phase 2 or 3
  with a draw above 0.5, else summon in phase 2 or 3 with a draw above 0.7, else
  slam in phase 3 with a draw above 0.6, else walking. Of all that can happen to
  the scene only such a frame takes the boss from idle to one of these five
  states. (A hit that crosses a phase threshold or kills takes it from idle to
  stunned or dying, the victory callback to dead.)
\<close>

theorem idle_decision:
  "(bossState s = IDLE \<and> stateTimer s - fr_delta fr \<le> 0 \<and> attackCooldown s \<le> 0 \<longrightarrow>
      bossState (BossScene_update fr s) =
        spec_nextAction 120 400 \<bar>pl_x (framePlayer fr s) - bossX s\<bar> (bossPhase s) (fr_roll fr)) \<and>
   (bossState s = IDLE \<and> \<not> (stateTimer s - fr_delta fr \<le> 0 \<and> attackCooldown s \<le> 0) \<longrightarrow>
      bossState (BossScene_update fr s) = IDLE) \<and>
   (bossState s = IDLE \<and>
    bossState (sceneStep e s) \<in> {WALKING, SLASH, CHARGE, SUMMON, SLAM} \<longrightarrow>
      (\<exists>fr. e = Frame fr \<and> stateTimer s - fr_delta fr \<le> 0 \<and> attackCooldown s \<le> 0))"
  using idle_leaves_by_frame [of s e] by (simp add: bossState_frame_idle)


text \<open>
  The decision when the fight has begun (idle timer 500, no cooldown), with the
  player far or near, and with the boss set to phase 2 and 3.
\<close>

lemma framePlayer_x:
  "fr_playerY fr \<le> 770 \<Longrightarrow> pl_x (framePlayer fr s) = fr_playerX fr"
  by (simp add: framePlayer_def checkDeathPit_def movePlayer_def GAME_HEIGHT_def)

theorem idle_decision_witness:
  "bossState fight_begun = IDLE \<and>
   bossState (BossScene_update (frame_far 500 0.9) fight_begun) = WALKING \<and>
   bossState (BossScene_update (frame_far 16 0.9) fight_begun) = IDLE \<and>
   bossState (BossScene_update (frame_near 500 0.9) fight_begun) = SLASH \<and>
   bossState (BossScene_update (frame_far 500 0.9) (fight_begun\<lparr>bossPhase := 2\<rparr>)) = CHARGE \<and>
   bossState (BossScene_update (frame_far 500 0.9)
                (fight_begun\<lparr>bossPhase := 2, bossX := 500\<rparr>)) = SUMMON \<and>
   bossState (BossScene_update (frame_far 500 0.65)
                (fight_begun\<lparr>bossPhase := 3, bossX := 500\<rparr>)) = SLAM \<and>
   bossState (sceneStep (Frame (frame_far 500 0.9)) fight_begun) \<in>
     {WALKING, SLASH, CHARGE, SUMMON, SLAM} \<and>
   stateTimer fight_begun - fr_delta (frame_far 500 0.9) \<le> 0 \<and>
   attackCooldown fight_begun \<le> 0"
proof -
  have idle: "bossState fight_begun = IDLE" "stateTimer fight_begun = 500"
    "attackCooldown fight_begun = 0" "bossPhase fight_begun = 1" "bossX fight_begun = 1100"
    by (simp_all add: fight_begun_value new_BossScene_def)
  have far: "pl_x (framePlayer (frame_far d r) s) = 150"
    and near: "pl_x (framePlayer (frame_near d r) s) = 1030" for d r s
    by (simp_all add: framePlayer_x frame_far_def frame_near_def)
  have fields: "fr_delta (frame_far d r) = d" "fr_roll (frame_far d r) = r"
    "fr_delta (frame_near d r) = d" "fr_roll (frame_near d r) = r" for d r
    by (simp_all add: frame_far_def frame_near_def)
  have w1: "bossState (BossScene_update (frame_far 500 0.9) fight_begun) = WALKING"
    using idle_decision [of fight_begun "frame_far 500 0.9"] idle
    by (simp add: far spec_nextAction_def fields)
  have w2: "bossState (BossScene_update (frame_far 16 0.9) fight_begun) = IDLE"
    using idle_decision [of fight_begun "frame_far 16 0.9"] idle
    by (simp add: fields)
  have w3: "bossState (BossScene_update (frame_near 500 0.9) fight_begun) = SLASH"
    using idle_decision [of fight_begun "frame_near 500 0.9"] idle
    by (simp add: near spec_nextAction_def fields)
  have w4: "bossState (BossScene_update (frame_far 500 0.9) (fight_begun\<lparr>bossPhase := 2\<rparr>)) = CHARGE"
    using idle_decision [of "fight_begun\<lparr>bossPhase := 2\<rparr>" "frame_far 500 0.9"] idle
    by (simp add: far spec_nextAction_def fields)
  have w5: "bossState (BossScene_update (frame_far 500 0.9)
                (fight_begun\<lparr>bossPhase := 2, bossX := 500\<rparr>)) = SUMMON"
    using idle_decision [of "fight_begun\<lparr>bossPhase := 2, bossX := 500\<rparr>" "frame_far 500 0.9"] idle
    by (simp add: far spec_nextAction_def fields)
  have w6: "bossState (BossScene_update (frame_far 500 0.65)
                (fight_begun\<lparr>bossPhase := 3, bossX := 500\<rparr>)) = SLAM"
    using idle_decision [of "fight_begun\<lparr>bossPhase := 3, bossX := 500\<rparr>" "frame_far 500 0.65"] idle
    by (simp add: far spec_nextAction_def fields)
  have w7: "bossState (sceneStep (Frame (frame_far 500 0.9)) fight_begun) \<in>
     {WALKING, SLASH, CHARGE, SUMMON, SLAM}"
    using w1 by simp
  have w8: "stateTimer fight_begun - fr_delta (frame_far 500 0.9) \<le> 0"
    using idle by (simp add: fields)
  from idle w1 w2 w3 w4 w5 w6 w7 w8 show ?thesis by simp
qed

text \<open>What a charge does at a wall\<close>

lemma pl_body_framePlayer: "pl_body (framePlayer fr s) = fr_playerBody fr"
  by (simp add: framePlayer_def checkDeathPit_def movePlayer_def fallDeath_def Player_die_def
      respawn_def Let_def)

lemma updateCharge_wall:
  assumes "\<not> Overlaps (bossHitbox s) (playerRect s)"
    and "bossX s \<le> 100 \<or> bossX s \<ge> 1300"
  shows "updateCharge s =
           s\<lparr>bossVelocityX := 0, screenShakeIntensity := 5, bossState := STUNNED,
             stateTimer := 1000\<rparr>"
  using assms by (auto simp add: updateCharge_def Let_def)

lemma updateBoss_charge_wall:
  assumes "bossState s = CHARGE"
    and "\<not> Overlaps (bossHitbox s) (playerRect s)"
    and "bossX s \<le> 100 \<or> bossX s \<ge> 1300"
  shows "bossState (updateBoss delta roll s) = STUNNED \<and>
         bossVelocityX (updateBoss delta roll s) = 0 \<and>
         stateTimer (updateBoss delta roll s) = 1000"
proof -
  let ?s2 = "s\<lparr>stateTimer := stateTimer s - delta,
                bossFacing := (if pl_x (player s) < bossX s then -1 else 1)\<rparr>"
  have "\<not> Overlaps (bossHitbox ?s2) (playerRect ?s2)" "bossX ?s2 \<le> 100 \<or> bossX ?s2 \<ge> 1300"
    using assms by (simp_all add: playerRect_def)
  from updateCharge_wall [OF this] have "updateCharge ?s2 =
      ?s2\<lparr>bossVelocityX := 0, screenShakeIntensity := 5, bossState := STUNNED,
          stateTimer := 1000\<rparr>" .
  moreover have "bossStateMachine roll ?s2 = updateCharge ?s2"
    using assms(1) by (simp add: bossStateMachine_def)
  ultimately show ?thesis
    using assms(1) by (simp add: updateBoss_active)
qed

text \<open>
  C6. When the boss is in its charge and its x is at or beyond a wall (at most 100
  or at least 1300) and its hitbox does not overlap the player's body, the charge
  update makes it stunned with its horizontal velocity zeroed, and so does the
  whole frame, which sets the state timer to the stun's 1000 ms. This holds whether
  or not the charge timer has run out in that frame: the wall is checked first and
  resets the timer.
\<close>

theorem charge_wall_stuns:
  "(\<not> Overlaps (bossHitbox s) (playerRect s) \<and> (bossX s \<le> 100 \<or> bossX s \<ge> 1300) \<longrightarrow>
      bossState (updateCharge s) = STUNNED \<and> bossVelocityX (updateCharge s) = 0) \<and>
   (bossState s = CHARGE \<and> \<not> Overlaps (bossHitbox s) (fr_playerBody fr) \<and>
    (bossX s \<le> 100 \<or> bossX s \<ge> 1300) \<longrightarrow>
      bossState (BossScene_update fr s) = STUNNED \<and>
      bossVelocityX (BossScene_update fr s) = 0 \<and>
      stateTimer (BossScene_update fr s) = 1000)"
proof (intro conjI impI)
  assume a: "bossState s = CHARGE \<and> \<not> Overlaps (bossHitbox s) (fr_playerBody fr) \<and>
    (bossX s \<le> 100 \<or> bossX s \<ge> 1300)"
  let ?s1 = "s\<lparr>player := framePlayer fr s\<rparr>"
  have "bossState ?s1 = CHARGE" "\<not> Overlaps (bossHitbox ?s1) (playerRect ?s1)"
    "bossX ?s1 \<le> 100 \<or> bossX ?s1 \<ge> 1300"
    using a by (simp_all add: playerRect_def pl_body_framePlayer)
  from updateBoss_charge_wall [OF this, of "fr_delta fr" "fr_roll fr"]
  show "bossState (BossScene_update fr s) = STUNNED"
    "bossVelocityX (BossScene_update fr s) = 0"
    "stateTimer (BossScene_update fr s) = 1000"
    by (simp_all add: BossScene_update_fields)
qed (simp_all add: updateCharge_wall)

text \<open>The charging boss at the left wall, the player in the air above it.\<close>

theorem charge_wall_stuns_witness:
  "bossState charging_at_wall = CHARGE \<and> bossX charging_at_wall \<le> 100 \<and>
   0 < stateTimer charging_at_wall - fr_delta frame_jump \<and>
   \<not> Overlaps (bossHitbox charging_at_wall) (fr_playerBody frame_jump) \<and>
   \<not> Overlaps (bossHitbox charging_at_wall) (playerRect charging_at_wall) \<and>
   bossState (updateCharge charging_at_wall) = STUNNED \<and>
   bossState (BossScene_update frame_jump charging_at_wall) = STUNNED \<and>
   bossVelocityX (BossScene_update frame_jump charging_at_wall) = 0 \<and>
   stateTimer (BossScene_update frame_jump charging_at_wall) = 1000"
proof -
  have h: "bossState charging_at_wall = CHARGE" "bossX charging_at_wall \<le> 100"
    "0 < stateTimer charging_at_wall - fr_delta frame_jump"
    "\<not> Overlaps (bossHitbox charging_at_wall) (fr_playerBody frame_jump)"
    "\<not> Overlaps (bossHitbox charging_at_wall) (playerRect charging_at_wall)"
    by (simp_all add: charging_at_wall_def frame_jump_def Overlaps_def playerRect_def
        fight_begun_value new_BossScene_def new_Player_def body0_def)
  from charge_wall_stuns [of charging_at_wall frame_jump] h
  have "bossState (updateCharge charging_at_wall) = STUNNED"
    and "bossState (BossScene_update frame_jump charging_at_wall) = STUNNED \<and>
        bossVelocityX (BossScene_update frame_jump charging_at_wall) = 0 \<and>
        stateTimer (BossScene_update frame_jump charging_at_wall) = 1000"
    by blast+
  with h show ?thesis by blast
qed

text \<open>Contact damage\<close>

lemma updateBoss_stunned:
  assumes "bossState s = STUNNED" and "0 < stateTimer s - delta"
  shows "bossState (updateBoss delta roll s) = STUNNED \<and>
         player (updateBoss delta roll s) = player s"
proof -
  let ?s2 = "s\<lparr>stateTimer := stateTimer s - delta,
                bossFacing := (if pl_x (player s) < bossX s then -1 else 1)\<rparr>"
  have "bossStateMachine roll ?s2 = ?s2"
    using assms by (simp add: bossStateMachine_def updateStunned_def)
  then have "updateBoss delta roll s = checkBossPlayerCollision (applyVelocity delta ?s2)"
    using assms(1) by (simp add: updateBoss_active)
  moreover have "checkBossPlayerCollision (applyVelocity delta ?s2) = applyVelocity delta ?s2"
    using assms(1) by (simp add: checkBossPlayerCollision_def)
  ultimately show ?thesis using assms(1) by simp
qed

lemma checkBossPlayerCollision_inactive:
  "bossState s = STUNNED \<or> bossState s = DORMANT \<or> bossState s = DEAD \<Longrightarrow>
   checkBossPlayerCollision s = s"
  by (auto simp add: checkBossPlayerCollision_def)

lemma checkBossPlayerCollision_contact:
  "bossState s \<noteq> STUNNED \<Longrightarrow> bossState s \<noteq> DORMANT \<Longrightarrow> bossState s \<noteq> DEAD \<Longrightarrow>
   Overlaps (bossHitbox s) (playerRect s) \<Longrightarrow>
   checkBossPlayerCollision s = hurtPlayer 1 (bossX s) s"
  by (simp add: checkBossPlayerCollision_def)

lemma checkBossPlayerCollision_hurts:
  "player (checkBossPlayerCollision s) \<noteq> player s \<Longrightarrow>
   bossState s \<noteq> STUNNED \<and> bossState s \<noteq> DORMANT \<and> bossState s \<noteq> DEAD \<and>
   Overlaps (bossHitbox s) (playerRect s)"
  by (simp add: checkBossPlayerCollision_def split: if_splits)

text \<open>
  C10. In the states stunned, dormant and dead the contact check leaves the scene
  as it is, overlap or not; in every other state an overlap of the boss's hitbox
  with the player's body calls the player's \<open>takeDamage(1, bossX)\<close>. The check
  touches the player only in those other states and under overlap. A frame's boss
  update does nothing at all while dormant or dead, and while the boss stays
  stunned (the stun timer has not run out in the frame) it leaves the player as it
  is.
\<close>

theorem no_contact_damage_when_stunned:
  "(bossState s = STUNNED \<or> bossState s = DORMANT \<or> bossState s = DEAD \<longrightarrow>
      checkBossPlayerCollision s = s) \<and>
   (bossState s \<noteq> STUNNED \<and> bossState s \<noteq> DORMANT \<and> bossState s \<noteq> DEAD \<and>
    Overlaps (bossHitbox s) (playerRect s) \<longrightarrow>
      checkBossPlayerCollision s = hurtPlayer 1 (bossX s) s) \<and>
   (player (checkBossPlayerCollision s) \<noteq> player s \<longrightarrow>
      bossState s \<noteq> STUNNED \<and> bossState s \<noteq> DORMANT \<and> bossState s \<noteq> DEAD \<and>
      Overlaps (bossHitbox s) (playerRect s)) \<and>
   (bossState s = DORMANT \<or> bossState s = DEAD \<longrightarrow> updateBoss delta roll s = s) \<and>
   (bossState s = STUNNED \<and> 0 < stateTimer s - delta \<longrightarrow>
      bossState (updateBoss delta roll s) = STUNNED \<and>
      player (updateBoss delta roll s) = player s)"
proof (intro conjI impI)
  assume "bossState s = STUNNED \<and> 0 < stateTimer s - delta"
  then show "bossState (updateBoss delta roll s) = STUNNED"
    "player (updateBoss delta roll s) = player s"
    using updateBoss_stunned [of s delta roll] by simp_all
next
  assume "player (checkBossPlayerCollision s) \<noteq> player s"
  from checkBossPlayerCollision_hurts [OF this]
  show "bossState s \<noteq> STUNNED" "bossState s \<noteq> DORMANT" "bossState s \<noteq> DEAD"
    "Overlaps (bossHitbox s) (playerRect s)"
    by simp_all
qed (simp_all add: updateBoss_inactive checkBossPlayerCollision_inactive
      checkBossPlayerCollision_contact)

text \<open>
  The stunned boss with the player standing in it: no damage from the check or from
  a frame's boss update. The same scene with the boss walking: the player loses one
  heart. The dormant boss: nothing happens.
\<close>

theorem no_contact_damage_when_stunned_witness:
  "bossState stunned_on_player = STUNNED \<and>
   Overlaps (bossHitbox stunned_on_player) (playerRect stunned_on_player) \<and>
   checkBossPlayerCollision stunned_on_player = stunned_on_player \<and>
   0 < stateTimer stunned_on_player - 16 \<and>
   player (updateBoss 16 0 stunned_on_player) = player stunned_on_player \<and>
   bossState (stunned_on_player\<lparr>bossState := WALKING\<rparr>) = WALKING \<and>
   pl_health (player (checkBossPlayerCollision (stunned_on_player\<lparr>bossState := WALKING\<rparr>))) = 4 \<and>
   updateBoss 16 0 (new_BossScene body0) = new_BossScene body0"
proof -
  have h: "bossState stunned_on_player = STUNNED"
    "Overlaps (bossHitbox stunned_on_player) (playerRect stunned_on_player)"
    "0 < stateTimer stunned_on_player - 16"
    by (simp_all add: stunned_on_player_def Overlaps_def playerRect_def)
  let ?w = "stunned_on_player\<lparr>bossState := WALKING\<rparr>"
  have hw: "bossState ?w = WALKING" "Overlaps (bossHitbox ?w) (playerRect ?w)"
    using h(2) by (simp_all add: playerRect_def)
  note stunned = no_contact_damage_when_stunned [of stunned_on_player 16 0]
  note walking = no_contact_damage_when_stunned [of ?w 16 0]
  note dormant = no_contact_damage_when_stunned [of "new_BossScene body0" 16 0]
  have 1: "checkBossPlayerCollision stunned_on_player = stunned_on_player"
    by (rule stunned [THEN conjunct1, THEN mp]) (simp add: h(1))
  have 2: "player (updateBoss 16 0 stunned_on_player) = player stunned_on_player"
    by (rule stunned [THEN conjunct2, THEN conjunct2, THEN conjunct2, THEN conjunct2,
          THEN mp, THEN conjunct2]) (use h in simp)
  have "checkBossPlayerCollision ?w = hurtPlayer 1 (bossX ?w) ?w"
    by (rule walking [THEN conjunct2, THEN conjunct1, THEN mp])
       (use h(2) in \<open>simp add: playerRect_def\<close>)
  then have 3: "pl_health (player (checkBossPlayerCollision ?w)) = 4"
    by (simp add: hurtPlayer_def Player_takeDamage_def Let_def stunned_on_player_def
        fight_begun_value new_BossScene_def new_Player_def)
  have 4: "updateBoss 16 0 (new_BossScene body0) = new_BossScene body0"
    by (rule dormant [THEN conjunct2, THEN conjunct2, THEN conjunct2, THEN conjunct1, THEN mp])
       (simp add: new_BossScene_def)
  show ?thesis
    by (intro conjI) (rule h 1 2 hw 3 4)+
qed

section \<open>Properties of the boss's phases\<close>

lemma combat_update [simp]:
  "combat (s\<lparr>player := v0\<rparr>) = combat s"
  "combat (s\<lparr>bossX := v1\<rparr>) = combat s"
  "combat (s\<lparr>bossY := v2\<rparr>) = combat s"
  "combat (s\<lparr>bossState := v3\<rparr>) = combat s"
  "combat (s\<lparr>bossFacing := v4\<rparr>) = combat s"
  "combat (s\<lparr>bossVelocityX := v5\<rparr>) = combat s"
  "combat (s\<lparr>bossVelocityY := v6\<rparr>) = combat s"
  "combat (s\<lparr>bossHitbox := v7\<rparr>) = combat s"
  "combat (s\<lparr>stateTimer := v8\<rparr>) = combat s"
  "combat (s\<lparr>attackCooldown := v9\<rparr>) = combat s"
  "combat (s\<lparr>invincibleTimer := v10\<rparr>) = combat s"
  "combat (s\<lparr>animTimer := v11\<rparr>) = combat s"
  "combat (s\<lparr>screenShakeIntensity := v12\<rparr>) = combat s"
  "combat (s\<lparr>voidOrbs := v13\<rparr>) = combat s"
  "combat (s\<lparr>sc_triggerZone := v14\<rparr>) = combat s"
  "combat (s\<lparr>sc_delayed := v15\<rparr>) = combat s"
  "combat (s\<lparr>sc_deaths := v16\<rparr>) = combat s"
  "combat (s\<lparr>sc_victories := v17\<rparr>) = combat s"
  "combat (s\<lparr>sc_nextOrb := v18\<rparr>) = combat s"
  by (simp_all add: combat_def)

lemma combat_basic [simp]:
  "combat (hurtPlayer a x s) = combat s"
  "combat (delayedCall d cb s) = combat s"
  "combat (checkBossPlayerCollision s) = combat s"
  "combat (applyVelocity dt s) = combat s"
  "combat (updateTimers dt s) = combat s"
  "combat (updateScreenShake s) = combat s"
  "combat (updateVoidOrbs dt s) = combat s"
  by (simp_all add: hurtPlayer_def delayedCall_def checkBossPlayerCollision_def
      applyVelocity_def updateTimers_def updateScreenShake_def updateVoidOrbs_def Let_def
      split: prod.splits)

lemma combat_starts [simp]:
  "combat (startBossFight s) = combat s"
  "combat (startSlash s) = combat s"
  "combat (startCharge s) = combat s"
  "combat (startSummon s) = combat s"
  "combat (startSlam s) = combat s"
  "combat (spawnVoidOrb s) = combat s"
  "combat (createSlamWave s) = combat s"
  "combat (startBossDeath s) = combat s"
  by (simp_all add: startBossFight_def startSlash_def startCharge_def
      startSummon_def startSlam_def spawnVoidOrb_def createSlamWave_def startBossDeath_def
      Let_def)

lemma combat_updates [simp]:
  "combat (chooseNextAction roll s) = combat s"
  "combat (updateWalking s) = combat s"
  "combat (updateSlash s) = combat s"
  "combat (updateCharge s) = combat s"
  "combat (updateSummon s) = combat s"
  "combat (updateSlam s) = combat s"
  "combat (updateStunned s) = combat s"
  by (simp_all add: chooseNextAction_def updateWalking_def updateSlash_def updateCharge_def
      updateSummon_def updateSlam_def updateStunned_def Let_def)

lemma combat_updateIdle [simp]: "combat (updateIdle roll s) = combat s"
  by (simp add: updateIdle_def Let_def)

lemma combat_bossStateMachine [simp]: "combat (bossStateMachine roll s) = combat s"
  by (simp add: bossStateMachine_def split: BossState.splits)

lemma combat_updateBoss [simp]: "combat (updateBoss dt roll s) = combat s"
  by (simp add: updateBoss_def Let_def)

lemma combat_BossScene_update [simp]: "combat (BossScene_update fr s) = combat s"
  by (simp add: BossScene_update_def Let_def)

lemma combat_onTriggerOverlap [simp]: "combat (onTriggerOverlap s) = combat s"
  by (simp add: onTriggerOverlap_def)

lemma combat_callback [simp]: "combat (callback cb s) = combat s"
  by (cases cb) simp_all

lemma combat_fire [simp]: "combat (fire i s) = combat s"
  by (simp add: fire_def)













lemma sceneTrace_not_Nil [simp]: "sceneTrace es s \<noteq> []"
  by (cases es) simp_all

lemma hd_sceneTrace [simp]: "hd (sceneTrace es s) = s"
  by (cases es) simp_all
















lemma bossTrace_not_Nil [simp]: "bossTrace es b \<noteq> []"
  by (cases es) simp_all











section \<open>A fight from the first frame to the boss's death\<close>

lemma stance_update [simp]:
  "stance (s\<lparr>player := v0\<rparr>) = stance s"
  "stance (s\<lparr>bossFacing := v1\<rparr>) = stance s"
  "stance (s\<lparr>stateTimer := v2\<rparr>) = stance s"
  "stance (s\<lparr>attackCooldown := v3\<rparr>) = stance s"
  "stance (s\<lparr>invincibleTimer := v4\<rparr>) = stance s"
  "stance (s\<lparr>animTimer := v5\<rparr>) = stance s"
  "stance (s\<lparr>screenShakeIntensity := v6\<rparr>) = stance s"
  "stance (s\<lparr>voidOrbs := v7\<rparr>) = stance s"
  "stance (s\<lparr>sc_delayed := v8\<rparr>) = stance s"
  by (simp_all add: stance_def)

lemma stance_steps [simp]:
  "stance (hurtPlayer a x s) = stance s"
  "stance (checkBossPlayerCollision s) = stance s"
  "stance (updateTimers dt s) = stance s"
  "stance (updateScreenShake s) = stance s"
  "stance (updateVoidOrbs dt s) = stance s"
  by (simp_all add: hurtPlayer_def checkBossPlayerCollision_def updateTimers_def
      updateScreenShake_def updateVoidOrbs_def Let_def split: prod.splits)

lemma invincibleTimer_steps [simp]:
  "invincibleTimer (hurtPlayer a x s) = invincibleTimer s"
  "invincibleTimer (checkBossPlayerCollision s) = invincibleTimer s"
  "invincibleTimer (applyVelocity dt s) = invincibleTimer s"
  "invincibleTimer (updateScreenShake s) = invincibleTimer s"
  "invincibleTimer (updateVoidOrbs dt s) = invincibleTimer s"
  by (simp_all add: hurtPlayer_def checkBossPlayerCollision_def applyVelocity_def
      updateScreenShake_def updateVoidOrbs_def Let_def split: prod.splits)

lemma invincibleTimer_updateTimers:
  "invincibleTimer (updateTimers dt s) =
     (if invincibleTimer s > 0 then invincibleTimer s - dt else invincibleTimer s)"
  by (simp add: updateTimers_def Let_def)

text \<open>The state machine of a standing boss with the player 70 away.\<close>

lemma bossStateMachine_standing:
  assumes "bossX s = 1100" "bossVelocityX s = 0" "bossVelocityY s = 0"
    "bossState s \<in> {IDLE, SLASH, STUNNED, DYING}" "pl_x (player s) = 1030"
  shows "bossX (bossStateMachine roll s) = 1100 \<and>
         bossY (bossStateMachine roll s) = bossY s \<and>
         bossVelocityX (bossStateMachine roll s) = 0 \<and>
         bossVelocityY (bossStateMachine roll s) = 0 \<and>
         bossState (bossStateMachine roll s) \<in> {IDLE, SLASH, STUNNED, DYING} \<and>
         (bossState s = DYING \<longrightarrow> bossState (bossStateMachine roll s) = DYING) \<and>
         bossHitbox (bossStateMachine roll s) = bossHitbox s \<and>
         sc_deaths (bossStateMachine roll s) = sc_deaths s \<and>
         invincibleTimer (bossStateMachine roll s) = invincibleTimer s \<and>
         player (bossStateMachine roll s) = player s \<and>
         pendingVictories (bossStateMachine roll s) = pendingVictories s"
proof -
  from assms(4) consider "bossState s = IDLE" | "bossState s = SLASH"
    | "bossState s = STUNNED" | "bossState s = DYING"
    by auto
  then show ?thesis
  proof cases
    case 1
    with assms show ?thesis
      by (simp add: bossStateMachine_def updateIdle_def chooseNextAction_def startSlash_def
          delayedCall_def pendingVictories_def Let_def)
  next
    case 2
    with assms show ?thesis
      by (simp add: bossStateMachine_def updateSlash_def pendingVictories_def)
  next
    case 3
    with assms show ?thesis
      by (simp add: bossStateMachine_def updateStunned_def pendingVictories_def)
  next
    case 4
    with assms show ?thesis
      by (simp add: bossStateMachine_def)
  qed
qed


lemma pendingVictories_update [simp]:
  "pendingVictories (s\<lparr>player := v0\<rparr>) = pendingVictories s"
  "pendingVictories (s\<lparr>bossFacing := v1\<rparr>) = pendingVictories s"
  "pendingVictories (s\<lparr>stateTimer := v2\<rparr>) = pendingVictories s"
  "pendingVictories (s\<lparr>bossX := v3\<rparr>) = pendingVictories s"
  "pendingVictories (s\<lparr>bossY := v4\<rparr>) = pendingVictories s"
  "pendingVictories (s\<lparr>bossHitbox := v5\<rparr>) = pendingVictories s"
  by (simp_all add: pendingVictories_def)

lemma pendingVictories_steps [simp]:
  "pendingVictories (hurtPlayer a x s) = pendingVictories s"
  "pendingVictories (checkBossPlayerCollision s) = pendingVictories s"
  "pendingVictories (applyVelocity dt s) = pendingVictories s"
  "pendingVictories (updateTimers dt s) = pendingVictories s"
  "pendingVictories (updateScreenShake s) = pendingVictories s"
  "pendingVictories (updateVoidOrbs dt s) = pendingVictories s"
  by (simp_all add: pendingVictories_def hurtPlayer_def checkBossPlayerCollision_def
      applyVelocity_def updateTimers_def updateScreenShake_def updateVoidOrbs_def Let_def
      split: prod.splits)

lemma applyVelocity_standing:
  assumes "bossX s = 1100" "bossY s = 520" "bossVelocityX s = 0" "bossVelocityY s = 0"
    "rwidth (bossHitbox s) = 60" "rheight (bossHitbox s) = 100"
  shows "stance (applyVelocity dt s) = (1100, 520, 0, 0, bossState s, boss_box, sc_deaths s)"
  using assms
  by (simp add: applyVelocity_def stance_def Clamp_def boss_box_def Let_def)

lemma frame_near_fields [simp]:
  "fr_delta (frame_near d r) = d" "fr_roll (frame_near d r) = r"
  "fr_playerX (frame_near d r) = 1030" "fr_playerY (frame_near d r) = 520"
  "fr_playerBody (frame_near d r) = \<lparr>rx = 1018, ry = 497.6, rwidth = 24, rheight = 54.4\<rparr>"
  by (simp_all add: frame_near_def)

lemma standing_frame:
  assumes "standing s"
  shows "stance (BossScene_update (frame_near 300 0) s) =
           (1100, 520, 0, 0, bossState (BossScene_update (frame_near 300 0) s), boss_box,
            sc_deaths s) \<and>
         bossState (BossScene_update (frame_near 300 0) s) \<in> {IDLE, SLASH, STUNNED, DYING} \<and>
         (bossState s = DYING \<longrightarrow> bossState (BossScene_update (frame_near 300 0) s) = DYING) \<and>
         invincibleTimer (BossScene_update (frame_near 300 0) s) \<le> 0 \<and>
         pendingVictories (BossScene_update (frame_near 300 0) s) = pendingVictories s"
proof -
  let ?fr = "frame_near 300 0"
  define s1 where "s1 = s\<lparr>player := framePlayer ?fr s\<rparr>"
  define facing :: real where "facing = (if pl_x (player s1) < bossX s1 then -1 else 1)"
  define s2 where "s2 = s1\<lparr>stateTimer := stateTimer s1 - 300, bossFacing := facing\<rparr>"
  define m where "m = bossStateMachine 0 s2"
  define a where "a = applyVelocity 300 m"
  from assms have st: "bossX s = 1100" "bossY s = 520" "bossVelocityX s = 0"
    "bossVelocityY s = 0" "bossState s \<in> {IDLE, SLASH, STUNNED, DYING}"
    "rwidth (bossHitbox s) = 60" "rheight (bossHitbox s) = 100" "invincibleTimer s \<le> 300"
    by (simp_all add: standing_def)
  have s2: "bossX s2 = 1100" "bossY s2 = 520" "bossVelocityX s2 = 0" "bossVelocityY s2 = 0"
    "bossState s2 = bossState s" "bossHitbox s2 = bossHitbox s" "sc_deaths s2 = sc_deaths s"
    "invincibleTimer s2 = invincibleTimer s" "pendingVictories s2 = pendingVictories s"
    "pl_x (player s2) = 1030"
    "pl_body (player s2) = \<lparr>rx = 1018, ry = 497.6, rwidth = 24, rheight = 54.4\<rparr>"
    using st by (simp_all add: s2_def s1_def framePlayer_x pl_body_framePlayer)
  have m: "bossX m = 1100 \<and> bossY m = bossY s2 \<and> bossVelocityX m = 0 \<and>
         bossVelocityY m = 0 \<and> bossState m \<in> {IDLE, SLASH, STUNNED, DYING} \<and>
         (bossState s2 = DYING \<longrightarrow> bossState m = DYING) \<and>
         bossHitbox m = bossHitbox s2 \<and> sc_deaths m = sc_deaths s2 \<and>
         invincibleTimer m = invincibleTimer s2 \<and> player m = player s2 \<and>
         pendingVictories m = pendingVictories s2"
    unfolding m_def by (rule bossStateMachine_standing) (use st s2 in simp_all)
  have a: "stance a = (1100, 520, 0, 0, bossState m, boss_box, sc_deaths s)"
    unfolding a_def using applyVelocity_standing [of m 300] m st s2 by simp
  have a': "invincibleTimer a = invincibleTimer s" "pendingVictories a = pendingVictories s"
    "playerRect a = \<lparr>rx = 1018, ry = 497.6, rwidth = 24, rheight = 54.4\<rparr>"
    unfolding a_def using m s2 by (simp_all add: playerRect_def)
  have box: "bossHitbox a = boss_box" "bossState a = bossState m"
    using a by (simp_all add: stance_def)
  have free: "checkBossPlayerCollision a = a"
    by (simp add: checkBossPlayerCollision_def a'(3) box Overlaps_def boss_box_def)
  have active: "bossState s1 \<noteq> DORMANT" "bossState s1 \<noteq> AWAKENING" "bossState s1 \<noteq> DEAD"
    using st(5) by (auto simp add: s1_def)
  have ub: "updateBoss 300 0 s1 = a"
    using updateBoss_active [OF active, of 300 0] free
    by (simp add: a_def m_def s2_def facing_def)
  have upd: "BossScene_update ?fr s = updateVoidOrbs 300 (updateScreenShake (updateTimers 300 a))"
    using ub by (simp add: BossScene_update_def Let_def framePlayer_def s1_def)
  show ?thesis
    unfolding upd using a a' m s2(5) st(8)
    by (simp add: invincibleTimer_updateTimers box)
qed


lemma bossTakeDamage_stance:
  "bossX (bossTakeDamage a s) = bossX s"
  "bossY (bossTakeDamage a s) = bossY s"
  "bossVelocityX (bossTakeDamage a s) = bossVelocityX s"
  "bossVelocityY (bossTakeDamage a s) = bossVelocityY s"
  "bossHitbox (bossTakeDamage a s) = bossHitbox s"
  "bossHealth (bossTakeDamage a s) = bossHealth s - a"
  "bossState (bossTakeDamage a s) \<in> {bossState s, STUNNED, DYING}"
  "bossHealth s - a \<le> 0 \<Longrightarrow> bossState (bossTakeDamage a s) = DYING"
  "sc_deaths (bossTakeDamage a s) =
     (if bossHealth s - a \<le> 0 then Suc (sc_deaths s) else sc_deaths s)"
  "pendingVictories (bossTakeDamage a s) =
     (if bossHealth s - a \<le> 0 then Suc (pendingVictories s) else pendingVictories s)"
  by (simp_all add: bossTakeDamage_def transitionToPhase_def startBossDeath_def
      delayedCall_def pendingVictories_def Let_def)

lemma bossHealth_BossScene_update: "bossHealth (BossScene_update fr s) = bossHealth s"
  using combat_BossScene_update [of fr s] by (simp add: combat_def)

lemma standing_volley:
  assumes "standing s"
  shows "standing (volley s) \<and>
         bossHealth (volley s) = bossHealth s - 1 \<and>
         sc_deaths (volley s) =
           (if bossHealth s - 1 \<le> 0 then Suc (sc_deaths s) else sc_deaths s) \<and>
         pendingVictories (volley s) =
           (if bossHealth s - 1 \<le> 0 then Suc (pendingVictories s) else pendingVictories s) \<and>
         (bossHealth s - 1 \<le> 0 \<longrightarrow> bossState (volley s) = DYING)"
proof -
  define f where "f = BossScene_update (frame_near 300 0) s"
  from standing_frame [OF assms]
  have f: "stance f = (1100, 520, 0, 0, bossState f, boss_box, sc_deaths s)"
    "bossState f \<in> {IDLE, SLASH, STUNNED, DYING}" "invincibleTimer f \<le> 0"
    "pendingVictories f = pendingVictories s"
    by (simp_all add: f_def)
  have fh: "bossHealth f = bossHealth s"
    by (simp add: f_def bossHealth_BossScene_update)
  from f(1) have ff: "bossX f = 1100" "bossY f = 520" "bossVelocityX f = 0"
    "bossVelocityY f = 0" "bossHitbox f = boss_box" "sc_deaths f = sc_deaths s"
    by (simp_all add: stance_def)
  have hit: "onPlayerAttack nail f = bossTakeDamage 1 f"
    using f(2,3) ff(5) by (auto simp add: onPlayerAttack_def Overlaps_def nail_def boss_box_def)
  have v: "volley s = bossTakeDamage 1 f"
    by (simp add: volley_def f_def [symmetric] hit)
  have timer: "invincibleTimer (bossTakeDamage 1 f) = 300"
    by (rule bossTakeDamage_timer)
  have state: "bossState (bossTakeDamage 1 f) \<in> {IDLE, SLASH, STUNNED, DYING}"
    using bossTakeDamage_stance(7) [of 1 f] f(2) by auto
  show ?thesis
    unfolding v using ff fh f(4) timer state bossTakeDamage_stance(8) [of f 1]
    by (simp add: standing_def bossTakeDamage_stance(1-6,9,10) boss_box_def)
qed

lemma fight_begun_standing:
  "standing fight_begun \<and> bossHealth fight_begun = 20 \<and> sc_deaths fight_begun = 0 \<and>
   pendingVictories fight_begun = 0"
  by (simp add: fight_begun_value new_BossScene_def standing_def pendingVictories_def)

lemma volleys:
  "standing ((volley ^^ n) fight_begun) \<and>
   bossHealth ((volley ^^ n) fight_begun) = 20 - real n \<and>
   sc_deaths ((volley ^^ n) fight_begun) = n - 19 \<and>
   pendingVictories ((volley ^^ n) fight_begun) = n - 19 \<and>
   (20 \<le> n \<longrightarrow> bossState ((volley ^^ n) fight_begun) = DYING)"
proof (induction n)
  case 0
  then show ?case using fight_begun_standing by simp
next
  case (Suc n)
  then have st: "standing ((volley ^^ n) fight_begun)" by simp
  from standing_volley [OF st] Suc show ?case
    by (auto simp add: Suc_diff_le)
qed

lemma last_sceneTrace: "last (sceneTrace es s) = fold sceneStep es s"
  by (induction es arbitrary: s) simp_all

lemma fold_volleys:
  "fold sceneStep (concat (replicate n [Frame (frame_near 300 0), PlayerAttack nail])) s =
     (volley ^^ n) s"
proof (induction n arbitrary: s)
  case 0
  then show ?case by simp
next
  case (Suc n)
  have "fold sceneStep (concat (replicate (Suc n) [Frame (frame_near 300 0), PlayerAttack nail])) s =
        fold sceneStep (concat (replicate n [Frame (frame_near 300 0), PlayerAttack nail]))
          (volley s)"
    by (simp add: volley_def)
  also have "\<dots> = (volley ^^ n) (volley s)" by (rule Suc.IH)
  also have "\<dots> = (volley ^^ Suc n) s" by (simp only: funpow_Suc_right o_apply)
  finally show ?case .
qed

lemma fight_events_run:
  "last (sceneTrace (fight_events n) (new_BossScene body0)) = (volley ^^ n) fight_begun"
  by (simp add: last_sceneTrace fight_events_def fold_volleys fight_begun_def)

text \<open>
  C3, which the code does not satisfy. The listener for the player's attacks
  returns early in the states dormant, awakening and dead and during the
  invulnerability, but not in the state dying. In the fight of 20 volleys the
  twentieth hit brings the health to 0 and starts the death sequence. One more
  volley, a frame of 300 ms that ends the invulnerability and one more swing of the
  nail, takes the health to -1 and starts the death sequence again: the state is
  set to dying a second time and a second victory callback is pending.
\<close>

theorem boss_death_restarts:
  "bossHealth (last (sceneTrace (fight_events 20) (new_BossScene body0))) = 0 \<and>
   bossState (last (sceneTrace (fight_events 20) (new_BossScene body0))) = DYING \<and>
   sc_deaths (last (sceneTrace (fight_events 20) (new_BossScene body0))) = 1 \<and>
   pendingVictories (last (sceneTrace (fight_events 20) (new_BossScene body0))) = 1 \<and>
   last (sceneTrace (fight_events 21) (new_BossScene body0)) =
     sceneStep (PlayerAttack nail)
       (sceneStep (Frame (frame_near 300 0))
          (last (sceneTrace (fight_events 20) (new_BossScene body0)))) \<and>
   bossHealth (last (sceneTrace (fight_events 21) (new_BossScene body0))) = - 1 \<and>
   bossState (last (sceneTrace (fight_events 21) (new_BossScene body0))) = DYING \<and>
   sc_deaths (last (sceneTrace (fight_events 21) (new_BossScene body0))) = 2 \<and>
   pendingVictories (last (sceneTrace (fight_events 21) (new_BossScene body0))) = 2"
proof -
  have next_volley: "(volley ^^ 21) fight_begun = volley ((volley ^^ 20) fight_begun)"
    by (simp add: eval_nat_numeral)
  show ?thesis
    unfolding fight_events_run using volleys [of 20] volleys [of 21]
    by (simp add: next_volley) (simp add: volley_def)
qed


text \<open>
  C2, which the code does not satisfy for the boss of the scene. Its damage enters
  through the \<open>player-attack\<close> listener, which returns early in the states dormant,
  awakening and dead and while \<open>invincibleTimer\<close> is positive. A boss whose health
  has reached 0 is in the state dying until the victory callback fires 2500 ms
  later, and dying is not among the states the listener returns in: once the 300 ms
  of invulnerability of the last hit are over, an attack that overlaps the hitbox
  of the dying boss takes one more point of its health.
\<close>

theorem dying_boss_takes_damage:
  "bossState s = DYING \<and> invincibleTimer s \<le> 0 \<and> Overlaps hitbox (bossHitbox s) \<longrightarrow>
     onPlayerAttack hitbox s = bossTakeDamage 1 s \<and>
     bossHealth (onPlayerAttack hitbox s) = bossHealth s - 1"
  by (simp add: onPlayerAttack_def bossTakeDamage_stance)

text \<open>
  The boss after the fight of 20 volleys and a frame of 300 ms: dying at health 0,
  the invulnerability over, its hitbox in reach of the nail. The swing takes its
  health to -1.
\<close>

theorem dying_boss_takes_damage_witness:
  "bossState (sceneStep (Frame (frame_near 300 0))
      (last (sceneTrace (fight_events 20) (new_BossScene body0)))) = DYING \<and>
   bossHealth (sceneStep (Frame (frame_near 300 0))
      (last (sceneTrace (fight_events 20) (new_BossScene body0)))) = 0 \<and>
   invincibleTimer (sceneStep (Frame (frame_near 300 0))
      (last (sceneTrace (fight_events 20) (new_BossScene body0)))) \<le> 0 \<and>
   Overlaps nail (bossHitbox (sceneStep (Frame (frame_near 300 0))
      (last (sceneTrace (fight_events 20) (new_BossScene body0))))) \<and>
   bossHealth (onPlayerAttack nail (sceneStep (Frame (frame_near 300 0))
      (last (sceneTrace (fight_events 20) (new_BossScene body0))))) = - 1"
proof -
  define s where "s = (volley ^^ 20) fight_begun"
  define f where "f = sceneStep (Frame (frame_near 300 0)) s"
  have run: "last (sceneTrace (fight_events 20) (new_BossScene body0)) = s"
    by (simp add: fight_events_run s_def)
  from volleys [of 20] have st: "standing s" and h: "bossHealth s = 0"
    and d: "bossState s = DYING"
    by (simp_all add: s_def)
  have fu: "f = BossScene_update (frame_near 300 0) s" by (simp add: f_def)
  from standing_frame [OF st] d
  have box: "stance f = (1100, 520, 0, 0, bossState f, boss_box, sc_deaths s)"
    and dying: "bossState f = DYING" and timer: "invincibleTimer f \<le> 0"
    by (simp_all add: fu)
  have health: "bossHealth f = 0"
    by (simp add: fu bossHealth_BossScene_update h)
  from box have "bossHitbox f = boss_box" by (simp add: stance_def)
  then have reach: "Overlaps nail (bossHitbox f)"
    by (simp add: Overlaps_def nail_def boss_box_def)
  from dying timer reach
  have hyp: "bossState f = DYING \<and> invincibleTimer f \<le> 0 \<and> Overlaps nail (bossHitbox f)"
    by simp
  have "bossHealth (onPlayerAttack nail f) = bossHealth f - 1"
    by (rule dying_boss_takes_damage [of f nail, THEN mp, OF hyp, THEN conjunct2])
  with health have hit: "bossHealth (onPlayerAttack nail f) = - 1" by simp
  show ?thesis
    unfolding run f_def [symmetric]
    by (intro conjI) (rule dying health timer reach hit)+
qed



section \<open>Properties of the void orbs\<close>







lemma riseOrb_fields [simp]:
  "orb_lifetime (riseOrb i y orb) = orb_lifetime orb"
  "orb_active (riseOrb i y orb) = orb_active orb"
  by (simp_all add: riseOrb_def)




lemma risen_empty [simp]: "fold (\<lambda>r. map (riseOrb (fst r) (snd r))) rs [] = []"
  by (induction rs) simp_all

lemma arrive_empty [simp]: "fst st = [] \<Longrightarrow> fst (arrive t st) = []"
  by (simp add: arrive_def)






lemma samePlayer_refl [simp]: "samePlayer p p"
  by (simp add: samePlayer_def)







lemma moved_frame_far [simp]:
  "movePlayer (frame_far d r) (new_Player 150 520 body0) = new_Player 150 520 body0"
  by (simp add: movePlayer_def frame_far_def new_Player_def)

lemma arrive_tick16 [simp]:
  "arrive tick16 (orbs, new_Player 150 520 body0) = (orbs, new_Player 150 520 body0)"
  by (simp add: arrive_def tick16_def)

lemma delta_tick16 [simp]: "fr_delta (ot_frame tick16) = 16"
  by (simp add: tick16_def frame_far_def)








section \<open>Properties of the observable health\<close>





























end
